theory Spec2Isabelle
  imports Complex_Main
begin

section \<open>Numbers and the drawing library\<close>

text \<open>
  The sketch computes with JavaScript numbers, which are IEEE binary64 values
  ("doubles"). A number is modelled by the real number it stands for. The finite doubles
  are the reals \<open>k * 2^e\<close> with an integer \<open>k\<close> of magnitude below \<open>2^53\<close> and
  \<open>-1074 \<le> e \<le> 971\<close>; every arithmetic operation returns a double nearest to the exact
  result (the hardware breaks a tie toward the even \<open>k\<close>; \<open>nearest\<close> allows either
  neighbour, so what holds for every nearest double holds for the one the hardware
  picks). An exact result beyond \<open>max_double\<close> can round to \<open>Infinity\<close>, which is not
  modelled.

  The rounding is written out where a property depends on it: in the smoothing of
  \<open>p.draw\<close>. The threshold comparisons of the event logic compare two doubles and are not
  affected (no double lies between a decimal literal and the double it denotes);
  elsewhere (skeleton, geometry, particle physics) the arithmetic is taken exact.

  The sketch is a closure over a handful of mutable variables (\<open>currentMood\<close>,
  \<open>currentWind\<close>, the hysteresis latches, \<open>particles\<close>, \<open>rootBranch\<close>). Every function
  below takes the variables it reads as arguments and returns the ones it writes.
\<close>

definition double :: "real set" where
  "double = {of_int k * 2 ^ n | k n. \<bar>k\<bar> < 2 ^ 53 \<and> n \<le> 971}
          \<union> {of_int k / 2 ^ n | k n. \<bar>k\<bar> < 2 ^ 53 \<and> n \<le> 1074}"


definition nearest :: "real \<Rightarrow> real \<Rightarrow> bool" where
  "nearest x y = (y \<in> double \<and> (\<forall>z \<in> double. \<bar>x - y\<bar> \<le> \<bar>x - z\<bar>))"

text \<open>
  Modelled from the spec: \<open>types.ts\<close> (the declarations of \<open>TreeState\<close> and
  \<open>FlowerStyle\<close>) is not among the sources. The state source returns the two scalars
  \<open>mood\<close> and \<open>windForce\<close>; the style tag is one of \<open>peach\<close>, \<open>sakura\<close>, \<open>delonix\<close>.
\<close>

record TreeState =
  mood :: real
  windForce :: real

datatype FlowerStyle = Peach | Sakura | Delonix

datatype TreeEventType = Bloom | Wither

text \<open>
  Modelled from the spec: \<open>p.lerp\<close> belongs to the drawing library, whose code is
  not among the sources. The spec calls the update a blend "toward target" by a fixed
  factor (a first-order low-pass filter); the library documents
  \<open>lerp(start, stop, amt) = amt * (stop - start) + start\<close>. These are three operations
  on doubles, each rounded: the difference \<open>d\<close>, the product \<open>t\<close>, the sum \<open>r\<close>.
  \<open>lerp start stop amt r\<close> says that \<open>r\<close> is a result of the call.
\<close>

inductive lerp :: "real \<Rightarrow> real \<Rightarrow> real \<Rightarrow> real \<Rightarrow> bool" where
  "nearest (stop - start) d \<Longrightarrow> nearest (amt * d) t \<Longrightarrow> nearest (t + start) r
   \<Longrightarrow> lerp start stop amt r"

section \<open>Signal smoothing and event detection (\<open>p.draw\<close>)\<close>

subsection \<open>The style variant: \<open>services/treeSketch.ts\<close>\<close>

record signal =
  currentMood :: real
  currentWind :: real
  wasBlooming :: bool

text \<open>
  The event sink \<open>onTreeEvent\<close> is optional; \<open>sink\<close> says whether one was passed to
  \<open>createSketch\<close>. The events returned are the calls made to the sink, in order.
\<close>

definition emit :: "bool \<Rightarrow> TreeEventType \<Rightarrow> TreeEventType list" where
  "emit sink ev = (if sink then [ev] else [])"

text \<open>Lines 237-243: the hysteresis block, on the smoothed mood of this frame.\<close>

definition eventLogic :: "bool \<Rightarrow> bool \<Rightarrow> real \<Rightarrow> bool \<times> TreeEventType list" where
  "eventLogic sink wb cm =
     (if \<not> wb \<and> cm > 0.6 then (True, emit sink Bloom)
      else if wb \<and> cm < 0.2 then (False, [])
      else (wb, []))"

text \<open>
  The doubles the literals \<open>0.1\<close> and \<open>0.12\<close> of lines 231 and 235 denote
  (\<open>0.1000000000000000055...\<close> and \<open>0.1199999999999999955...\<close>).
\<close>

definition lit_0_1 :: real where
  "lit_0_1 = 3602879701896397 / 2 ^ 55"

definition lit_0_12 :: real where
  "lit_0_12 = 1080863910568919 / 2 ^ 53"

text \<open>Line 231: \<open>currentMood = p.lerp(currentMood, state.mood, 0.1)\<close>.\<close>

definition smoothMood :: "real \<Rightarrow> TreeState \<Rightarrow> real \<Rightarrow> bool" where
  "smoothMood cm state cm' = lerp cm (mood state) lit_0_1 cm'"

text \<open>Lines 234-235: the same for the wind, with the factor \<open>0.12\<close>.\<close>

definition smoothWind :: "real \<Rightarrow> TreeState \<Rightarrow> real \<Rightarrow> bool" where
  "smoothWind cw state cw' = lerp cw (windForce state) lit_0_12 cw'"

text \<open>
  Lines 226-243: pull the state, smooth mood and wind, run the event logic on the new
  smoothed mood. \<open>draw_signal sink state s (s', evs)\<close> says that the frame takes the
  variables \<open>s\<close> to \<open>s'\<close> and sends \<open>evs\<close>.
\<close>

inductive draw_signal ::
  "bool \<Rightarrow> TreeState \<Rightarrow> signal \<Rightarrow> signal \<times> TreeEventType list \<Rightarrow> bool" where
  "smoothMood (currentMood s) state cm \<Longrightarrow> smoothWind (currentWind s) state cw
   \<Longrightarrow> eventLogic sink (wasBlooming s) cm = (wb, evs)
   \<Longrightarrow> draw_signal sink state s (\<lparr>currentMood = cm, currentWind = cw, wasBlooming = wb\<rparr>, evs)"

text \<open>The variables as \<open>createSketch\<close> initialises them (lines 11-15).\<close>

definition signal0 :: signal where
  "signal0 = \<lparr>currentMood = 0, currentWind = 0, wasBlooming = False\<rparr>"

text \<open>
  Feeding the detector one smoothed mood per frame: the latch after the last frame and,
  for each frame, the events it sent.
\<close>

fun feed :: "bool \<Rightarrow> bool \<Rightarrow> real list \<Rightarrow> bool \<times> TreeEventType list list" where
  "feed sink wb [] = (wb, [])"
| "feed sink wb (cm # cms) =
     (let (wb1, evs) = eventLogic sink wb cm;
          (wb2, rest) = feed sink wb1 cms
      in (wb2, evs # rest))"



subsection \<open>The mood-only variant (the sketch with the wither latch)\<close>

text \<open>Lines 143-158 of the mood-only sketch: the bloom block, then the wither block.\<close>

definition eventLogic_mo ::
  "bool \<Rightarrow> bool \<times> bool \<Rightarrow> real \<Rightarrow> (bool \<times> bool) \<times> TreeEventType list" where
  "eventLogic_mo sink latches cm =
     (let (wb, ww) = latches;
          (wb1, evs1) =
             (if \<not> wb \<and> cm > 0.6 then (True, emit sink Bloom)
              else if wb \<and> cm < 0.2 then (False, [])
              else (wb, []));
          (ww1, evs2) =
             (if \<not> ww \<and> cm < - 0.6 then (True, emit sink Wither)
              else if ww \<and> cm > - 0.2 then (False, [])
              else (ww, []))
      in ((wb1, ww1), evs1 @ evs2))"

fun feed_mo ::
  "bool \<Rightarrow> bool \<times> bool \<Rightarrow> real list \<Rightarrow> (bool \<times> bool) \<times> TreeEventType list list" where
  "feed_mo sink l [] = (l, [])"
| "feed_mo sink l (cm # cms) =
     (let (l1, evs) = eventLogic_mo sink l cm;
          (l2, rest) = feed_mo sink l1 cms
      in (l2, evs # rest))"

text \<open>The latches after each frame, in frame order.\<close>

fun latches_mo :: "bool \<Rightarrow> bool \<times> bool \<Rightarrow> real list \<Rightarrow> (bool \<times> bool) list" where
  "latches_mo sink l [] = []"
| "latches_mo sink l (cm # cms) =
     (let l1 = fst (eventLogic_mo sink l cm) in l1 # latches_mo sink l1 cms)"

text \<open>The wither events of a run, frame by frame.\<close>

definition wither_only :: "TreeEventType list list \<Rightarrow> TreeEventType list list" where
  "wither_only = map (filter (\<lambda>e. e = Wither))"





section \<open>The skeleton builder (\<open>buildTreeSkeleton\<close>)\<close>

text \<open>
  Modelled from the spec: \<open>p.random\<close> and \<open>p.map\<close> belong to the drawing library. The
  random source is a parameter: an unknown sequence \<open>rnd\<close> of numbers, read through a
  cursor that every call advances by one. The library documents \<open>random(hi)\<close> as
  \<open>rand * hi\<close> and \<open>random(lo, hi)\<close> as \<open>rand * (hi - lo) + lo\<close> for the next number
  \<open>rand\<close> of the source, which lies in \<open>[0, 1)\<close>, and \<open>map\<close> as the linear remapping
  of one range onto another.
\<close>

type_synonym rand_source = "nat \<Rightarrow> real"

definition unit_source :: "rand_source \<Rightarrow> bool" where
  "unit_source rnd = (\<forall>n. 0 \<le> rnd n \<and> rnd n < 1)"

definition random1 :: "rand_source \<Rightarrow> nat \<Rightarrow> real \<Rightarrow> real" where
  "random1 rnd k hi = rnd k * hi"

definition random2 :: "rand_source \<Rightarrow> nat \<Rightarrow> real \<Rightarrow> real \<Rightarrow> real" where
  "random2 rnd k lo hi = rnd k * (hi - lo) + lo"

definition map_range :: "real \<Rightarrow> real \<Rightarrow> real \<Rightarrow> real \<Rightarrow> real \<Rightarrow> real" where
  "map_range n start1 stop1 start2 stop2 =
     (n - start1) / (stop1 - start1) * (stop2 - start2) + start2"

definition MAX_DEPTH :: nat where
  "MAX_DEPTH = 9"

datatype Branch = Branch
  (len: real)
  (thick: real)
  (depth: nat)
  (angleOffset: real)
  (children: "Branch list")
  (noiseThreshold: real)
  (hasFlower: bool)
  (lenMult: real)

text \<open>The two assignments the loop makes to a child it has just built (lines 122-123).\<close>

definition attach :: "real \<Rightarrow> Branch \<Rightarrow> Branch" where
  "attach a child =
     Branch (len child) 0 (depth child) a (children child)
       (noiseThreshold child) (hasFlower child) (lenMult child)"

text \<open>
  Lines 100-128. The cursor of the random source goes in and comes out. The object
  literal draws three numbers in the order of its fields; the loop over
  \<open>i = 0, 1\<close> (\<open>numBranches = 2\<close>) builds a child, then draws its angle jitter.
\<close>

function createBranch :: "rand_source \<Rightarrow> nat \<Rightarrow> nat \<Rightarrow> Branch \<times> nat" where
  "createBranch rnd d k =
     (let nt = random2 rnd k 0.05 0.95;
          hf = (random1 rnd (k + 1) 1 > 0.5);
          lm = 0.72 + random2 rnd (k + 2) (- 0.08) 0.08;
          k0 = k + 3
      in if d < MAX_DEPTH then
           (let numBranches = 2 :: real;
                baseAngle = pi / 5.0;
                (child0, k1) = createBranch rnd (d + 1) k0;
                angle0 = map_range 0 0 (numBranches - 1) (- baseAngle) baseAngle
                           + random2 rnd k1 (- 0.15) 0.15;
                (child1, k2) = createBranch rnd (d + 1) (k1 + 1);
                angle1 = map_range 1 0 (numBranches - 1) (- baseAngle) baseAngle
                           + random2 rnd k2 (- 0.15) 0.15
            in (Branch 0 0 d 0 [attach angle0 child0, attach angle1 child1] nt hf lm, k2 + 1))
         else (Branch 0 0 d 0 [] nt hf lm, k0))"
  by pat_completeness auto
termination
  by (relation "measure (\<lambda>(rnd, d, k). MAX_DEPTH - d)") auto

text \<open>
  The drawing surface \<open>p\<close>, as far as the sketch reads it: its size, the frame counter
  and the coherent-noise function of the library (a parameter: any function).
\<close>

record p5 =
  width :: real
  height :: real
  frameCount :: real
  noise :: "real \<Rightarrow> real \<Rightarrow> real \<Rightarrow> real"

text \<open>Lines 93-134: the root is \<open>createBranch(0)\<close> with the trunk's length and thickness.\<close>

definition buildTreeSkeleton :: "p5 \<Rightarrow> rand_source \<Rightarrow> nat \<Rightarrow> Branch \<times> nat" where
  "buildTreeSkeleton p rnd k =
     (let isMobile = (width p < 600);
          trunkLenRatio = (if isMobile then 0.22 else 0.26);
          trunkLen = height p * trunkLenRatio;
          trunkThick = (if width p < 600 then 18 else 28);
          (root, k1) = createBranch rnd 0 k
      in (Branch trunkLen trunkThick (depth root) (angleOffset root) (children root)
            (noiseThreshold root) (hasFlower root) (lenMult root), k1))"

text \<open>All nodes of a skeleton, parents before children.\<close>

fun nodes :: "Branch \<Rightarrow> Branch list" where
  "nodes (Branch l t d a cs nt hf lm) = Branch l t d a cs nt hf lm # concat (map nodes cs)"

text \<open>
  The shape \<open>createBranch\<close> gives the subtree it builds at depth \<open>d\<close>: the node records
  \<open>d\<close>, has two children of the same kind one level down while \<open>d\<close> is below the cap,
  and none otherwise.
\<close>

fun shaped :: "nat \<Rightarrow> Branch \<Rightarrow> bool" where
  "shaped d (Branch l t d' a cs nt hf lm) =
     (d' = d \<and>
      (if d < MAX_DEPTH then length cs = 2 \<and> list_all (shaped (d + 1)) cs else cs = []))"

text \<open>The range the spec gives for the length multiplier.\<close>

definition lenMult_range :: "real \<Rightarrow> bool" where
  "lenMult_range lm = (0.64 \<le> lm \<and> lm \<le> 0.80)"

section \<open>The flower style catalog (\<open>drawFlowerShape\<close>)\<close>

text \<open>
  The sketch draws by calling the canvas. A frame's drawing is modelled as the list of
  the calls it makes, in order, with their arguments.
\<close>

datatype Color = RGBA real real real real

fun setAlpha :: "Color \<Rightarrow> real \<Rightarrow> Color" where
  "setAlpha (RGBA r g b a) a' = RGBA r g b a'"

text \<open>The palette of \<open>p.setup\<close> (lines 79-82); three-argument colours are opaque.\<close>

definition COL_TRUNK_DORMANT :: Color where
  "COL_TRUNK_DORMANT = RGBA 35 30 30 255"

definition COL_TRUNK_THRIVE :: Color where
  "COL_TRUNK_THRIVE = RGBA 100 70 50 255"

definition COL_LEAF_TENDER :: Color where
  "COL_LEAF_TENDER = RGBA 120 210 100 230"

definition COL_FLOWER_PINK :: Color where
  "COL_FLOWER_PINK = RGBA 255 140 170 240"

datatype draw_op =
    Push
  | Pop
  | Translate real real
  | Rotate real
  | Scale real real
  | NoStroke
  | Fill Color
  | Ellipse real real real real
  | Circle real real real
  | BeginShape
  | Vertex real real
  | QuadraticVertex real real real real
  | BezierVertex real real real real real real
  | EndShapeClose

definition TWO_PI :: real where
  "TWO_PI = 2 * pi"

text \<open>Lines 144-158: one pointed petal of the sakura, for loop index \<open>i\<close>.\<close>

definition sakuraPetal :: "real \<Rightarrow> nat \<Rightarrow> draw_op list" where
  "sakuraPetal sz i =
     (let pLen = sz * 0.85;
          pWidth = sz * 0.45
      in [Push, Rotate (TWO_PI / 5 * real i),
          BeginShape,
          Vertex 0 0,
          QuadraticVertex (- pWidth) (- pLen * 0.5) 0 (- pLen),
          QuadraticVertex pWidth (- pLen * 0.5) 0 0,
          EndShapeClose,
          Pop])"

text \<open>Lines 171-203: one spoon-shaped petal of the delonix, for loop index \<open>i\<close>.\<close>

definition delonixPetal :: "real \<Rightarrow> nat \<Rightarrow> draw_op list" where
  "delonixPetal sz i =
     (let totalLen = sz * 0.95;
          headWidth = sz * 0.35;
          headHeight = sz * 0.4;
          stemLen = totalLen - headHeight * 0.8;
          stemHalfWidth = sz * 0.04
      in [Push, Rotate (TWO_PI / 5 * real i),
          BeginShape,
          Vertex 0 0,
          Vertex (- stemHalfWidth) (- stemLen),
          BezierVertex (- headWidth) (- stemLen - headHeight * 0.2)
                       (- headWidth) (- totalLen)
                       0 (- totalLen),
          BezierVertex headWidth (- totalLen)
                       headWidth (- stemLen - headHeight * 0.2)
                       stemHalfWidth (- stemLen),
          Vertex 0 0,
          EndShapeClose,
          Pop])"

text \<open>Lines 214-217: one round petal of the peach; the rotation is not undone.\<close>

definition peachPetal :: "real \<Rightarrow> nat \<Rightarrow> draw_op list" where
  "peachPetal sz i =
     [Rotate (TWO_PI / 5), Ellipse 0 (sz * 0.4) (sz * 0.5) (sz * 0.6)]"

text \<open>
  Lines 137-223. Each \<open>for (let i = 0; i < 5; i++)\<close> runs its body for \<open>i = 0, ..., 4\<close>.
  The \<open>default\<close> label shares the peach case; the three tags are all there are.
\<close>

fun drawFlowerShape :: "FlowerStyle \<Rightarrow> real \<Rightarrow> draw_op list" where
  "drawFlowerShape Sakura sz =
     [NoStroke, Fill COL_FLOWER_PINK]
     @ concat (map (sakuraPetal sz) [0..<5])
     @ [Fill (RGBA 255 255 255 220), Circle 0 0 (sz * 0.2)]"
| "drawFlowerShape Delonix sz =
     [NoStroke, Fill COL_FLOWER_PINK]
     @ concat (map (delonixPetal sz) [0..<5])
     @ [Fill (RGBA 255 200 100 150), Circle 0 0 (sz * 0.15)]"
| "drawFlowerShape Peach sz =
     [NoStroke, Fill COL_FLOWER_PINK]
     @ concat (map (peachPetal sz) [0..<5])
     @ [Fill (RGBA 255 220 100 255), Circle 0 0 (sz * 0.3)]"

text \<open>The number of canvas calls each style makes for one flower.\<close>

definition petalOps :: "FlowerStyle \<Rightarrow> nat" where
  "petalOps s = (case s of Peach \<Rightarrow> 14 | Sakura \<Rightarrow> 44 | Delonix \<Rightarrow> 54)"

text \<open>
  Reading a drawing. A petal is drawn by an ellipse (peach) or by closing a shape
  (sakura, delonix); the centre accent is the circle.
\<close>

fun is_petal :: "draw_op \<Rightarrow> bool" where
  "is_petal (Ellipse _ _ _ _) = True"
| "is_petal EndShapeClose = True"
| "is_petal _ = False"

fun is_center :: "draw_op \<Rightarrow> bool" where
  "is_center (Circle _ _ _) = True"
| "is_center _ = False"

text \<open>
  The rotation of the canvas at each petal draw: \<open>Rotate\<close> adds to the current angle,
  \<open>Push\<close> saves it and \<open>Pop\<close> restores the last one saved (a \<open>Pop\<close> on an empty stack
  leaves it as it is).
\<close>

fun petal_angles :: "real \<Rightarrow> real list \<Rightarrow> draw_op list \<Rightarrow> real list" where
  "petal_angles a stk [] = []"
| "petal_angles a stk (Push # ops) = petal_angles a (a # stk) ops"
| "petal_angles a [] (Pop # ops) = petal_angles a [] ops"
| "petal_angles a (b # stk) (Pop # ops) = petal_angles b stk ops"
| "petal_angles a stk (Rotate r # ops) = petal_angles (a + r) stk ops"
| "petal_angles a stk (opn # ops) =
     (if is_petal opn then a # petal_angles a stk ops else petal_angles a stk ops)"

section \<open>The particle store (\<open>spawnFallingParticle\<close>, \<open>updateParticles\<close>)\<close>

datatype Vector = createVector (vx: real) (vy: real)

fun vec_add :: "Vector \<Rightarrow> Vector \<Rightarrow> Vector" where
  "vec_add (createVector a b) (createVector c d) = createVector (a + c) (b + d)"

fun vec_mult :: "Vector \<Rightarrow> real \<Rightarrow> Vector" where
  "vec_mult (createVector a b) n = createVector (a * n) (b * n)"

datatype ParticleType = Leaf | Flower

text \<open>
  The \<open>Particle\<close> interface (lines 18-45), field by field. \<open>acc\<close>, \<open>size\<close> and \<open>type\<close>
  carry a suffix, since the logic has constants of these names.
\<close>

record Particle =
  pos :: Vector
  vel :: Vector
  acc_p :: Vector
  color :: Color
  size_p :: real
  life :: real
  type_p :: ParticleType
  isGrounded :: bool
  groundY :: real
  angle :: real
  angleVel :: real
  flip :: real
  flipSpeed :: real
  swayPhase :: real
  swayFreq :: real
  swayAmp :: real

definition MAX_PARTICLES :: nat where
  "MAX_PARTICLES = 300"

text \<open>
  Lines 378-404; \<open>cw\<close> is the sketch's \<open>currentWind\<close>. \<open>particles.push\<close> appends. The
  four locals draw their numbers first, then the object literal draws the rest in the
  order of its fields.
\<close>

definition spawnFallingParticle ::
  "p5 \<Rightarrow> real \<Rightarrow> rand_source \<Rightarrow> real \<Rightarrow> real \<Rightarrow> Particle list \<times> nat \<Rightarrow> Particle list \<times> nat" where
  "spawnFallingParticle p cw rnd x y st =
     (let (particles, k) = st
      in if x < - 50 \<or> x > width p + 50 \<or> y > height p then (particles, k)
         else
           (let v_x = random2 rnd k (- 0.5) 0.5 + cw * 2.5;
                v_y = random2 rnd (k + 1) 1.5 3.5;
                gY = height p - random2 rnd (k + 2) 0 15;
                isFlower = (random1 rnd (k + 3) 1 > 0.5)
            in (particles @
                [\<lparr>pos = createVector x y,
                  vel = createVector v_x v_y,
                  acc_p = createVector 0 0,
                  color = (if isFlower then COL_FLOWER_PINK else COL_LEAF_TENDER),
                  size_p = random2 rnd (k + 4) 7 12,
                  life = 255,
                  type_p = (if isFlower then Flower else Leaf),
                  isGrounded = False,
                  groundY = gY,
                  angle = random1 rnd (k + 5) TWO_PI,
                  angleVel = random2 rnd (k + 6) (- 0.15) 0.15,
                  flip = random1 rnd (k + 7) TWO_PI,
                  flipSpeed = random2 rnd (k + 8) 0.05 0.2,
                  swayPhase = random1 rnd (k + 9) TWO_PI,
                  swayFreq = random2 rnd (k + 10) 0.05 0.1,
                  swayAmp = random2 rnd (k + 11) 0.02 0.05\<rparr>],
                k + 12)))"

text \<open>
  Lines 415-428: one step of the falling physics, before the ground test; \<open>wforce\<close> is the
  parameter \<open>windForce\<close> of \<open>updateParticles\<close>.
\<close>

definition advance :: "p5 \<Rightarrow> real \<Rightarrow> Particle \<Rightarrow> Particle" where
  "advance p wforce part =
     (let acc0 = createVector 0 0.1;
          turbulence =
            noise p (vx (pos part) * 0.01) (vy (pos part) * 0.01) (frameCount p * 0.02) - 0.5;
          windEffect = wforce * 0.25;
          acc1 = createVector (vx acc0 + (windEffect + turbulence * 0.15)) (vy acc0);
          swayForce = sin (frameCount p * swayFreq part + swayPhase part) * swayAmp part;
          acc2 = createVector (vx acc1 + swayForce) (vy acc1);
          vel1 = vec_add (vel part) acc2;
          vel2 = vec_mult vel1 0.94;
          pos1 = vec_add (pos part) vel2
      in part\<lparr>acc_p := acc2, vel := vel2, pos := pos1,
              angle := angle part + angleVel part,
              flip := flip part + flipSpeed part\<rparr>)"

text \<open>Lines 430-434: the ground test after the step.\<close>

definition ground :: "Particle \<Rightarrow> Particle" where
  "ground part =
     (if vy (pos part) \<ge> groundY part
      then part\<lparr>isGrounded := True,
                pos := createVector (vx (pos part)) (groundY part),
                vel := createVector 0 0\<rparr>
      else part)"

text \<open>Lines 414-435: what one update does to the state of one particle.\<close>

definition stepParticle :: "p5 \<Rightarrow> real \<Rightarrow> Particle \<Rightarrow> Particle" where
  "stepParticle p wforce part =
     (if \<not> isGrounded part then ground (advance p wforce part) else part)"

text \<open>Lines 437-459: the calls that draw one particle, under the style of this call.\<close>

definition renderParticle :: "FlowerStyle \<Rightarrow> Particle \<Rightarrow> draw_op list" where
  "renderParticle currentStyle part =
     (let tumbleScale = cos (flip part);
          renderScale = (if isGrounded part then 0.2 else \<bar>tumbleScale\<bar>);
          c = setAlpha (color part) (if isGrounded part then 200 else 255)
      in [Push,
          Translate (vx (pos part)) (vy (pos part)),
          Rotate (angle part),
          Scale 1 (max 0.1 renderScale)]
         @ (if type_p part = Flower then drawFlowerShape currentStyle (size_p part)
            else [Fill c, NoStroke, Ellipse 0 0 (size_p part) (size_p part * 0.7)])
         @ [Pop])"

text \<open>Line 461: the particle has left the canvas sideways, by more than the margin.\<close>

definition offCanvas :: "p5 \<Rightarrow> Particle \<Rightarrow> bool" where
  "offCanvas p part = (vx (pos part) < - 100 \<or> vx (pos part) > width p + 100)"

text \<open>
  \<open>xs.splice(start, n)\<close> removes \<open>n\<close> elements from index \<open>start\<close> on; like the source's,
  this one removes what is there when fewer than \<open>n\<close> remain.
\<close>

definition splice :: "nat \<Rightarrow> nat \<Rightarrow> 'a list \<Rightarrow> 'a list" where
  "splice start n xs = take start xs @ drop (start + n) xs"

text \<open>
  Reading \<open>particles[i]\<close> past the end gives \<open>undefined\<close>, and the first field access
  on it throws.
\<close>

datatype error = TypeError

text \<open>
  Lines 411-464: \<open>for (let i = particles.length - 1; i >= 0; i--)\<close>. The particle at
  \<open>i\<close> is updated in place, drawn, and spliced out when it has left the canvas. The
  drawing done so far is \<open>out\<close>.
\<close>

function particleLoop ::
  "p5 \<Rightarrow> real \<Rightarrow> FlowerStyle \<Rightarrow> int \<Rightarrow> Particle list \<Rightarrow> draw_op list
     \<Rightarrow> error + Particle list \<times> draw_op list" where
  "particleLoop p wforce currentStyle i particles out =
     (if i \<ge> 0 then
        (if nat i < length particles then
           (let part = stepParticle p wforce (particles ! nat i);
                particles1 = particles[nat i := part];
                out1 = out @ renderParticle currentStyle part;
                particles2 =
                  (if offCanvas p part then splice (nat i) 1 particles1 else particles1)
            in particleLoop p wforce currentStyle (i - 1) particles2 out1)
         else Inl TypeError)
      else Inr (particles, out))"
  by pat_completeness auto
termination
  by (relation "measure (\<lambda>(p, wforce, currentStyle, i, particles, out). nat (i + 1))") auto

text \<open>Lines 406-465: trim the store to its capacity from the front, then run the loop.\<close>

definition updateParticles ::
  "p5 \<Rightarrow> real \<Rightarrow> FlowerStyle \<Rightarrow> Particle list \<Rightarrow> error + Particle list \<times> draw_op list" where
  "updateParticles p wforce currentStyle particles =
     (let particles0 =
            (if length particles > MAX_PARTICLES
             then splice 0 (length particles - MAX_PARTICLES) particles
             else particles)
      in particleLoop p wforce currentStyle (int (length particles0) - 1) particles0 [])"

text \<open>What an update leaves in the store, and what it draws, when it does not throw.\<close>

definition storeAfter :: "error + Particle list \<times> draw_op list \<Rightarrow> Particle list option" where
  "storeAfter r = (case r of Inl e \<Rightarrow> None | Inr (ps, out) \<Rightarrow> Some ps)"

definition drawingAfter :: "error + Particle list \<times> draw_op list \<Rightarrow> draw_op list option" where
  "drawingAfter r = (case r of Inl e \<Rightarrow> None | Inr (ps, out) \<Rightarrow> Some out)"

text \<open>The particles an update keeps after the trim: the last \<open>MAX_PARTICLES\<close> of the store.\<close>

definition newest :: "Particle list \<Rightarrow> Particle list" where
  "newest particles = drop (length particles - MAX_PARTICLES) particles"

text \<open>Spawning at a list of positions, one call after the other.\<close>

fun spawnAll ::
  "p5 \<Rightarrow> real \<Rightarrow> rand_source \<Rightarrow> (real \<times> real) list \<Rightarrow> Particle list \<times> nat
     \<Rightarrow> Particle list \<times> nat" where
  "spawnAll p cw rnd [] st = st"
| "spawnAll p cw rnd ((x, y) # xys) st =
     spawnAll p cw rnd xys (spawnFallingParticle p cw rnd x y st)"

text \<open>The guard of \<open>spawnFallingParticle\<close> lets the position through.\<close>

definition accepted :: "p5 \<Rightarrow> real \<times> real \<Rightarrow> bool" where
  "accepted p xy = (\<not> (fst xy < - 50 \<or> fst xy > width p + 50 \<or> snd xy > height p))"

text \<open>
  One particle through later updates, each with its own canvas state and wind, and
  the number of those updates that switch it from falling to grounded.
\<close>

fun later :: "Particle \<Rightarrow> (p5 \<times> real) list \<Rightarrow> Particle" where
  "later part [] = part"
| "later part ((p, wforce) # fs) = later (stepParticle p wforce part) fs"

fun groundings :: "Particle \<Rightarrow> (p5 \<times> real) list \<Rightarrow> nat" where
  "groundings part [] = 0"
| "groundings part ((p, wforce) # fs) =
     (if \<not> isGrounded part \<and> isGrounded (stepParticle p wforce part) then 1 else 0)
     + groundings (stepParticle p wforce part) fs"

subsection \<open>The mood-only variant\<close>

definition COL_LEAF_DEAD :: Color where
  "COL_LEAF_DEAD = RGBA 100 85 70 255"

text \<open>The \<open>Particle\<close> interface of the mood-only sketch (lines 18-39).\<close>

record Particle_mo =
  pos_mo :: Vector
  vel_mo :: Vector
  acc_mo :: Vector
  color_mo :: Color
  size_mo :: real
  life_mo :: real
  isDead :: bool
  angle_mo :: real
  angleVel_mo :: real
  flip_mo :: real
  flipSpeed_mo :: real
  swayPhase_mo :: real
  swayFreq_mo :: real
  swayAmp_mo :: real

text \<open>
  Lines 337-366 of the mood-only sketch. A live particle draws one more number than a
  dead one, for its colour; \<open>k1\<close> is the cursor after the colour.
\<close>

definition spawnFallingParticle_mo ::
  "p5 \<Rightarrow> real \<Rightarrow> rand_source \<Rightarrow> real \<Rightarrow> real \<Rightarrow> bool \<Rightarrow> Particle_mo list \<times> nat
     \<Rightarrow> Particle_mo list \<times> nat" where
  "spawnFallingParticle_mo p cw rnd x y dead st =
     (let (particles, k) = st
      in if x < - 50 \<or> x > width p + 50 \<or> y > height p then (particles, k)
         else
           (let v_x = (if dead then random2 rnd k (- 1) 1 + cw * 1.0
                       else random2 rnd k (- 0.5) 0.5 + cw * 2.5);
                v_y = (if dead then random2 rnd (k + 1) 1.0 3.0
                       else random2 rnd (k + 1) 0.0 0.5);
                col = (if dead then COL_LEAF_DEAD
                       else if random1 rnd (k + 2) 1 > 0.5 then COL_FLOWER_PINK
                       else COL_LEAF_TENDER);
                k1 = (if dead then k + 2 else k + 3)
            in (particles @
                [\<lparr>pos_mo = createVector x y,
                  vel_mo = createVector v_x v_y,
                  acc_mo = createVector 0 0,
                  color_mo = col,
                  size_mo = random2 rnd k1 7 12,
                  life_mo = 255,
                  isDead = dead,
                  angle_mo = random1 rnd (k1 + 1) TWO_PI,
                  angleVel_mo = random2 rnd (k1 + 2) (- 0.15) 0.15,
                  flip_mo = random1 rnd (k1 + 3) TWO_PI,
                  flipSpeed_mo = random2 rnd (k1 + 4) 0.05 0.2,
                  swayPhase_mo = random1 rnd (k1 + 5) TWO_PI,
                  swayFreq_mo = random2 rnd (k1 + 6) 0.05 0.1,
                  swayAmp_mo = random2 rnd (k1 + 7) 0.02 0.05\<rparr>],
                k1 + 8)))"

section \<open>Example inputs\<close>

text \<open>A canvas, with a flat noise function, and a random source that always returns one half.\<close>

definition desktop :: p5 where
  "desktop = \<lparr>width = 800, height = 600, frameCount = 1, noise = (\<lambda>x y z. 1 / 2)\<rparr>"

definition coin :: rand_source where
  "coin = (\<lambda>n. 1 / 2)"

text \<open>
  A leaf lying on the ground in mid-canvas, and a leaf in flight one pixel inside the
  right margin, drifting right in a wind of 1.
\<close>

definition settled :: Particle where
  "settled =
     \<lparr>pos = createVector 400 590, vel = createVector 0 0, acc_p = createVector 0.3 0.1,
      color = COL_LEAF_TENDER, size_p = 9, life = 255, type_p = Leaf,
      isGrounded = True, groundY = 590, angle = 1, angleVel = 0.1, flip = 1,
      flipSpeed = 0.1, swayPhase = 1, swayFreq = 0.06, swayAmp = 0.03\<rparr>"

definition drifting :: Particle where
  "drifting =
     \<lparr>pos = createVector 899 300, vel = createVector 3 1.5, acc_p = createVector 0.3 0.1,
      color = COL_LEAF_TENDER, size_p = 9, life = 255, type_p = Leaf,
      isGrounded = False, groundY = 590, angle = 1, angleVel = 0.1, flip = 1,
      flipSpeed = 0.1, swayPhase = 1, swayFreq = 0.06, swayAmp = 0.03\<rparr>"

text \<open>A flower petal in flight in mid-canvas.\<close>

definition petal :: Particle where
  "petal =
     \<lparr>pos = createVector 400 300, vel = createVector 0 1.5, acc_p = createVector 0 0.1,
      color = COL_FLOWER_PINK, size_p = 10, life = 255, type_p = Flower,
      isGrounded = False, groundY = 590, angle = 1, angleVel = 0.1, flip = 1,
      flipSpeed = 0.1, swayPhase = 1, swayFreq = 0.06, swayAmp = 0.03\<rparr>"

text \<open>
  The particle \<open>spawnFallingParticle\<close> appends at \<open>(x, y)\<close> on the canvas \<open>desktop\<close> when
  the wind is \<open>cw\<close> and every number drawn is one half.
\<close>

definition fresh :: "real \<Rightarrow> real \<Rightarrow> real \<Rightarrow> Particle" where
  "fresh cw x y =
     \<lparr>pos = createVector x y, vel = createVector (cw * 2.5) 2.5, acc_p = createVector 0 0,
      color = COL_LEAF_TENDER, size_p = 9.5, life = 255, type_p = Leaf,
      isGrounded = False, groundY = 592.5, angle = pi, angleVel = 0, flip = pi,
      flipSpeed = 0.125, swayPhase = pi, swayFreq = 0.075, swayAmp = 0.035\<rparr>"

section \<open>Properties of the event detector\<close>

lemma feed_append:
  "feed sink wb (xs @ ys) =
     (let (wb1, e1) = feed sink wb xs; (wb2, e2) = feed sink wb1 ys in (wb2, e1 @ e2))"
  by (induction xs arbitrary: wb) (simp_all add: Let_def split: prod.splits)

lemma feed_quiet_clear:
  "\<forall>m \<in> set xs. m \<le> 0.6 \<Longrightarrow> feed sink False xs = (False, replicate (length xs) [])"
  by (induction xs) (simp_all add: eventLogic_def)

lemma feed_quiet_set:
  "\<forall>m \<in> set xs. 0.2 \<le> m \<Longrightarrow> feed sink True xs = (True, replicate (length xs) [])"
  by (induction xs) (simp_all add: eventLogic_def)

text \<open>
  C1. Bloom hysteresis. Start with the latch clear and a sink attached. Feed the
  detector frames \<open>pre\<close> that do not exceed 0.6, a first frame \<open>x\<close> above 0.6, frames
  \<open>mid\<close> that do not fall below 0.2 (they may cross 0.6 again, any number of times), and a
  frame \<open>y\<close> below 0.2. Exactly one event is sent, \<open>bloom\<close>, at the frame of \<open>x\<close>; the
  latch is set from that frame on, through all of \<open>mid\<close>; the frame of \<open>y\<close> clears the
  latch and sends nothing.
\<close>

theorem bloom_hysteresis:
  assumes "\<forall>m \<in> set pre. m \<le> 0.6" and "0.6 < x"
    and "\<forall>m \<in> set mid. 0.2 \<le> m" and "y < 0.2"
  shows "feed True False (pre @ [x] @ mid) =
           (True, replicate (length pre) [] @ [[Bloom]] @ replicate (length mid) []) \<and>
         feed True False (pre @ [x] @ mid @ [y]) =
           (False, replicate (length pre) [] @ [[Bloom]] @ replicate (length mid) [] @ [[]])"
  using assms
  by (simp add: feed_append feed_quiet_clear feed_quiet_set eventLogic_def emit_def)

theorem bloom_hysteresis_witness:
  "feed True False ([0, 0.3] @ [0.65] @ [0.7, 0.5, 0.65]) =
     (True, [[], [], [Bloom], [], [], []]) \<and>
   feed True False ([0, 0.3] @ [0.65] @ [0.7, 0.5, 0.65] @ [0.1]) =
     (False, [[], [], [Bloom], [], [], [], []])"
  using bloom_hysteresis [of "[0, 0.3]" "0.65" "[0.7, 0.5, 0.65]" "0.1"]
  by (simp add: numeral_eq_Suc)

text \<open>The example sequence of the spec: events at indices 2 and 6 only.\<close>

lemma hysteresis_example:
  "snd (feed True False [0, 0.3, 0.65, 0.7, 0.5, 0.1, 0.65]) =
     [[], [], [Bloom], [], [], [], [Bloom]]"
  by (simp add: eventLogic_def emit_def)

subsection \<open>The mood-only variant\<close>

lemma feed_mo_append:
  "feed_mo sink l (xs @ ys) =
     (let (l1, e1) = feed_mo sink l xs; (l2, e2) = feed_mo sink l1 ys in (l2, e1 @ e2))"
  by (induction xs arbitrary: l) (simp_all add: Let_def split: prod.splits)

lemma wither_step_clear:
  "- 0.6 \<le> cm \<Longrightarrow> snd l = False \<Longrightarrow>
   snd (fst (eventLogic_mo sink l cm)) = False \<and>
   filter (\<lambda>e. e = Wither) (snd (eventLogic_mo sink l cm)) = []"
  by (cases l) (simp add: eventLogic_mo_def emit_def)

lemma wither_step_set:
  "cm \<le> - 0.2 \<Longrightarrow> snd l = True \<Longrightarrow>
   snd (fst (eventLogic_mo sink l cm)) = True \<and>
   filter (\<lambda>e. e = Wither) (snd (eventLogic_mo sink l cm)) = []"
  by (cases l) (simp add: eventLogic_mo_def emit_def)

lemma feed_mo_quiet_clear:
  "\<forall>m \<in> set xs. - 0.6 \<le> m \<Longrightarrow> snd l = False \<Longrightarrow>
   snd (fst (feed_mo sink l xs)) = False \<and>
   wither_only (snd (feed_mo sink l xs)) = replicate (length xs) []"
proof (induction xs arbitrary: l)
  case Nil
  then show ?case by (simp add: wither_only_def)
next
  case (Cons m xs)
  have st: "snd (fst (eventLogic_mo sink l m)) = False"
    "filter (\<lambda>e. e = Wither) (snd (eventLogic_mo sink l m)) = []"
    using wither_step_clear [of m l sink] Cons.prems by simp_all
  have ih: "snd (fst (feed_mo sink (fst (eventLogic_mo sink l m)) xs)) = False \<and>
     wither_only (snd (feed_mo sink (fst (eventLogic_mo sink l m)) xs)) = replicate (length xs) []"
    using Cons.IH [of "fst (eventLogic_mo sink l m)"] Cons.prems st by simp
  show ?case using ih st by (simp add: split_beta wither_only_def)
qed

lemma feed_mo_quiet_set:
  "\<forall>m \<in> set xs. m \<le> - 0.2 \<Longrightarrow> snd l = True \<Longrightarrow>
   snd (fst (feed_mo sink l xs)) = True \<and>
   wither_only (snd (feed_mo sink l xs)) = replicate (length xs) []"
proof (induction xs arbitrary: l)
  case Nil
  then show ?case by (simp add: wither_only_def)
next
  case (Cons m xs)
  have st: "snd (fst (eventLogic_mo sink l m)) = True"
    "filter (\<lambda>e. e = Wither) (snd (eventLogic_mo sink l m)) = []"
    using wither_step_set [of m l sink] Cons.prems by simp_all
  have ih: "snd (fst (feed_mo sink (fst (eventLogic_mo sink l m)) xs)) = True \<and>
     wither_only (snd (feed_mo sink (fst (eventLogic_mo sink l m)) xs)) = replicate (length xs) []"
    using Cons.IH [of "fst (eventLogic_mo sink l m)"] Cons.prems st by simp
  show ?case using ih st by (simp add: split_beta wither_only_def)
qed

lemma wither_step_fire:
  "cm < - 0.6 \<Longrightarrow> snd l = False \<Longrightarrow>
   snd (fst (eventLogic_mo True l cm)) = True \<and>
   filter (\<lambda>e. e = Wither) (snd (eventLogic_mo True l cm)) = [Wither]"
  by (cases l) (simp add: eventLogic_mo_def emit_def)

lemma wither_step_release:
  "- 0.2 < cm \<Longrightarrow> snd l = True \<Longrightarrow>
   snd (fst (eventLogic_mo sink l cm)) = False \<and>
   filter (\<lambda>e. e = Wither) (snd (eventLogic_mo sink l cm)) = []"
  by (cases l) (simp add: eventLogic_mo_def emit_def)

lemma feed_mo_snoc:
  "feed_mo sink l (xs @ [cm]) =
     (fst (eventLogic_mo sink (fst (feed_mo sink l xs)) cm),
      snd (feed_mo sink l xs) @ [snd (eventLogic_mo sink (fst (feed_mo sink l xs)) cm)])"
  by (simp add: feed_mo_append split_beta)

lemma wither_only_append: "wither_only (a @ b) = wither_only a @ wither_only b"
  by (simp add: wither_only_def)

lemma wither_only_Cons: "wither_only (e # es) = filter (\<lambda>e. e = Wither) e # wither_only es"
  by (simp add: wither_only_def)

lemma wither_only_Nil: "wither_only [] = []"
  by (simp add: wither_only_def)

lemma feed_mo_fire:
  assumes "\<forall>m \<in> set pre. - 0.6 \<le> m" and "x < - 0.6" and "\<forall>m \<in> set mid. m \<le> - 0.2"
  shows "snd (fst (feed_mo True (wb, False) (pre @ [x] @ mid))) = True \<and>
         wither_only (snd (feed_mo True (wb, False) (pre @ [x] @ mid))) =
           replicate (length pre) [] @ [[Wither]] @ replicate (length mid) []"
proof -
  let ?l1 = "fst (feed_mo True (wb, False) pre)"
  let ?l2 = "fst (eventLogic_mo True ?l1 x)"
  have a: "snd ?l1 = False"
    "wither_only (snd (feed_mo True (wb, False) pre)) = replicate (length pre) []"
    using feed_mo_quiet_clear [of pre "(wb, False)" True] assms(1) by simp_all
  have b: "snd ?l2 = True" "filter (\<lambda>e. e = Wither) (snd (eventLogic_mo True ?l1 x)) = [Wither]"
    using wither_step_fire [of x ?l1] assms(2) a(1) by simp_all
  have c: "snd (fst (feed_mo True ?l2 mid)) = True"
    "wither_only (snd (feed_mo True ?l2 mid)) = replicate (length mid) []"
    using feed_mo_quiet_set [of mid ?l2 True] assms(3) b(1) by simp_all
  show ?thesis
    using a b c
    by (simp add: feed_mo_append split_beta wither_only_append wither_only_Cons)
qed

lemma feed_quiet_low:
  "\<forall>m \<in> set xs. m \<le> 0.6 \<Longrightarrow> snd (feed sink wb xs) = replicate (length xs) []"
  by (induction xs arbitrary: wb) (simp_all add: eventLogic_def split_beta)

lemma feed_rise_fall:
  assumes "\<forall>m \<in> set pre. m \<le> 0.6" and "0.6 < x"
    and "\<forall>m \<in> set mid. 0.2 \<le> m" and "y < 0.2"
  shows "feed sink False (pre @ [x] @ mid @ [y]) =
           (False, replicate (length pre) [] @ [emit sink Bloom] @ replicate (length mid) [] @ [[]])"
  using assms
  by (simp add: feed_append feed_quiet_clear feed_quiet_set eventLogic_def)

lemma eventLogic_mo_blocks:
  "eventLogic_mo sink (wb, ww) cm =
     ((fst (eventLogic sink wb cm), fst (eventLogic sink ww (- cm))),
      snd (eventLogic sink wb cm) @ map (\<lambda>e. Wither) (snd (eventLogic sink ww (- cm))))"
  by (simp add: eventLogic_mo_def eventLogic_def emit_def)

lemma feed_mo_blocks:
  "feed_mo sink (wb, ww) xs =
     ((fst (feed sink wb xs), fst (feed sink ww (map uminus xs))),
      map2 (@) (snd (feed sink wb xs))
        (map (map (\<lambda>e. Wither)) (snd (feed sink ww (map uminus xs)))))"
proof (induction xs arbitrary: wb ww)
  case Nil
  show ?case by simp
next
  case (Cons cm xs)
  show ?case
    using Cons.IH [of "fst (eventLogic sink wb cm)" "fst (eventLogic sink ww (- cm))"]
    by (simp add: eventLogic_mo_blocks split_beta)
qed

lemma map2_nil_left: "length ws = n \<Longrightarrow> map2 (@) (replicate n []) ws = ws"
  by (induction ws arbitrary: n) auto

lemma feed_mo_unfiltered:
  assumes "\<forall>m \<in> set pre. - 0.6 \<le> m" and "x < - 0.6"
    and "\<forall>m \<in> set mid. m \<le> - 0.2" and "- 0.2 < y"
  shows "snd (feed_mo True (wb, False) (pre @ [x] @ mid @ [y])) =
           map2 (@) (snd (feed True wb (pre @ [x] @ mid @ [y])))
             (replicate (length pre) [] @ [[Wither]] @ replicate (length mid) [] @ [[]])"
proof -
  have neg: "map uminus (pre @ [x] @ mid @ [y]) =
               map uminus pre @ [- x] @ map uminus mid @ [- y]" by simp
  have "feed True False (map uminus pre @ [- x] @ map uminus mid @ [- y]) =
          (False, replicate (length (map uminus pre)) [] @ [emit True Bloom]
                  @ replicate (length (map uminus mid)) [] @ [[]])"
    using assms by (intro feed_rise_fall) auto
  then have "map (map (\<lambda>e. Wither)) (snd (feed True False (map uminus (pre @ [x] @ mid @ [y])))) =
          replicate (length pre) [] @ [[Wither]] @ replicate (length mid) [] @ [[]]"
    unfolding neg by (simp add: emit_def)
  then show ?thesis by (simp only: feed_mo_blocks snd_conv)
qed

text \<open>
  C8. Wither hysteresis in the mood-only variant. Start with the wither latch clear
  (the bloom latch in any state) and a sink attached. Feed the detector frames \<open>pre\<close>
  that do not fall below -0.6, a first frame \<open>x\<close> below -0.6, frames \<open>mid\<close> that do not
  rise above -0.2 (they may fall below -0.6 again), and a frame \<open>y\<close> above -0.2. Exactly
  one \<open>wither\<close> event is sent, at the frame of \<open>x\<close>; the latch stays set through all of
  \<open>mid\<close>; the frame of \<open>y\<close> clears it and the clearing sends nothing. In full: what each
  frame sends is what the bloom block sends on that frame (the events of the style
  variant's detector) followed by the wither events, which are one \<open>wither\<close> at the
  frame of \<open>x\<close> and nothing on any other frame; so the clearing frame sends exactly what
  the bloom block sends, and the whole run sends the one \<open>wither\<close> and nothing else when
  no mood exceeds 0.6. The logic mirrors the bloom logic: on every frame the wither
  block sets its latch and sends its event as the bloom block does on the negated mood.
\<close>

theorem wither_hysteresis:
  assumes "\<forall>m \<in> set pre. - 0.6 \<le> m" and "x < - 0.6"
    and "\<forall>m \<in> set mid. m \<le> - 0.2" and "- 0.2 < y"
  shows "snd (fst (feed_mo True (wb, False) (pre @ [x] @ mid))) = True \<and>
         wither_only (snd (feed_mo True (wb, False) (pre @ [x] @ mid))) =
           replicate (length pre) [] @ [[Wither]] @ replicate (length mid) [] \<and>
         snd (fst (feed_mo True (wb, False) (pre @ [x] @ mid @ [y]))) = False \<and>
         wither_only (snd (feed_mo True (wb, False) (pre @ [x] @ mid @ [y]))) =
           replicate (length pre) [] @ [[Wither]] @ replicate (length mid) [] @ [[]] \<and>
         snd (fst (eventLogic_mo sink (wb, ww) cm)) = fst (eventLogic sink ww (- cm)) \<and>
         filter (\<lambda>e. e = Wither) (snd (eventLogic_mo sink (wb, ww) cm)) =
           map (\<lambda>e. Wither) (snd (eventLogic sink ww (- cm))) \<and>
         snd (feed_mo True (wb, False) (pre @ [x] @ mid @ [y])) =
           map2 (@) (snd (feed True wb (pre @ [x] @ mid @ [y])))
             (replicate (length pre) [] @ [[Wither]] @ replicate (length mid) [] @ [[]]) \<and>
         eventLogic_mo sink (wb', True) y = ((fst (eventLogic sink wb' y), False),
                                             snd (eventLogic sink wb' y)) \<and>
         (y \<le> 0.6 \<longrightarrow> snd (eventLogic_mo sink (wb', True) y) = []) \<and>
         ((\<forall>m \<in> set pre. m \<le> 0.6) \<and> y \<le> 0.6 \<longrightarrow>
            snd (feed_mo True (wb, False) (pre @ [x] @ mid @ [y])) =
              replicate (length pre) [] @ [[Wither]] @ replicate (length mid) [] @ [[]]) \<and>
         eventLogic_mo sink (wb, ww) cm =
           ((fst (eventLogic sink wb cm), fst (eventLogic sink ww (- cm))),
            snd (eventLogic sink wb cm) @ map (\<lambda>e. Wither) (snd (eventLogic sink ww (- cm))))"
proof -
  let ?xs = "pre @ [x] @ mid"
  have f: "snd (fst (feed_mo True (wb, False) ?xs)) = True"
    "wither_only (snd (feed_mo True (wb, False) ?xs)) =
           replicate (length pre) [] @ [[Wither]] @ replicate (length mid) []"
    using feed_mo_fire [OF assms(1-3), of wb] by simp_all
  have r: "snd (fst (eventLogic_mo True (fst (feed_mo True (wb, False) ?xs)) y)) = False"
    "filter (\<lambda>e. e = Wither) (snd (eventLogic_mo True (fst (feed_mo True (wb, False) ?xs)) y)) = []"
    using wither_step_release [of y "fst (feed_mo True (wb, False) ?xs)" True] assms(4) f(1)
    by simp_all
  have e: "pre @ [x] @ mid @ [y] = ?xs @ [y]" by simp
  have g: "snd (fst (feed_mo True (wb, False) (pre @ [x] @ mid @ [y]))) = False"
    unfolding e feed_mo_snoc using r(1) by simp
  have h: "wither_only (snd (feed_mo True (wb, False) (pre @ [x] @ mid @ [y]))) =
           replicate (length pre) [] @ [[Wither]] @ replicate (length mid) [] @ [[]]"
    unfolding e feed_mo_snoc using r(2) f(2)
    by (simp add: wither_only_append wither_only_Cons wither_only_Nil)
  have m: "snd (fst (eventLogic_mo sink (wb, ww) cm)) = fst (eventLogic sink ww (- cm))"
    "filter (\<lambda>e. e = Wither) (snd (eventLogic_mo sink (wb, ww) cm)) =
           map (\<lambda>e. Wither) (snd (eventLogic sink ww (- cm)))"
    by (simp_all add: eventLogic_mo_def eventLogic_def emit_def)
  have u: "snd (feed_mo True (wb, False) (pre @ [x] @ mid @ [y])) =
           map2 (@) (snd (feed True wb (pre @ [x] @ mid @ [y])))
             (replicate (length pre) [] @ [[Wither]] @ replicate (length mid) [] @ [[]])"
    using feed_mo_unfiltered [OF assms] .
  have c: "eventLogic_mo sink (wb', True) y = ((fst (eventLogic sink wb' y), False),
                                             snd (eventLogic sink wb' y))"
    using assms(4) by (simp add: eventLogic_mo_blocks eventLogic_def)
  have c': "y \<le> 0.6 \<longrightarrow> snd (eventLogic_mo sink (wb', True) y) = []"
    unfolding c by (simp add: eventLogic_def)
  have q: "snd (feed_mo True (wb, False) (pre @ [x] @ mid @ [y])) =
              replicate (length pre) [] @ [[Wither]] @ replicate (length mid) [] @ [[]]"
    if lo: "\<forall>m \<in> set pre. m \<le> 0.6" and yl: "y \<le> 0.6"
  proof -
    have "\<forall>m \<in> set (pre @ [x] @ mid @ [y]). m \<le> 0.6"
      using lo yl assms(2,3) by auto
    then have fq: "snd (feed True wb (pre @ [x] @ mid @ [y])) =
                 replicate (length (pre @ [x] @ mid @ [y])) []"
      by (rule feed_quiet_low)
    have len: "length (replicate (length pre) [] @ [[Wither]] @ replicate (length mid) [] @ [[]]) =
                 length (pre @ [x] @ mid @ [y])"
      by simp
    show ?thesis unfolding u fq by (rule map2_nil_left [OF len])
  qed
  show ?thesis using f g h m u c c' q eventLogic_mo_blocks [of sink wb ww cm] by blast
qed

theorem wither_hysteresis_witness:
  "snd (fst (feed_mo True (False, False) ([0, 0.7, - 0.3] @ [- 0.65] @ [- 0.7, - 0.5, - 0.9]))) = True \<and>
   wither_only (snd (feed_mo True (False, False) ([0, 0.7, - 0.3] @ [- 0.65] @ [- 0.7, - 0.5, - 0.9]))) =
     [[], [], [], [Wither], [], [], []] \<and>
   snd (fst (feed_mo True (False, False) ([0, 0.7, - 0.3] @ [- 0.65] @ [- 0.7, - 0.5, - 0.9] @ [- 0.1]))) = False \<and>
   wither_only (snd (feed_mo True (False, False) ([0, 0.7, - 0.3] @ [- 0.65] @ [- 0.7, - 0.5, - 0.9] @ [- 0.1]))) =
     [[], [], [], [Wither], [], [], [], []] \<and>
   snd (feed_mo True (False, False) ([0, 0.7, - 0.3] @ [- 0.65] @ [- 0.7, - 0.5, - 0.9] @ [- 0.1])) =
     [[], [Bloom], [], [Wither], [], [], [], []] \<and>
   eventLogic_mo True (False, True) (- 0.1) = ((False, False), []) \<and>
   snd (feed_mo True (True, False) ([0.3, - 0.3] @ [- 0.65] @ [- 0.7] @ [0.1])) =
     [[], [], [Wither], [], []]"
proof -
  have h: "\<forall>m \<in> set [0, 0.7, - 0.3 :: real]. - 0.6 \<le> m" "- 0.65 < (- 0.6 :: real)"
    "\<forall>m \<in> set [- 0.7, - 0.5, - 0.9 :: real]. m \<le> - 0.2" "- 0.2 < (- 0.1 :: real)"
    by simp_all
  note t = wither_hysteresis [OF h, of False True False 0 False]
  have r: "replicate (length [0, 0.7, - 0.3 :: real]) [] @ [[Wither]]
             @ replicate (length [- 0.7, - 0.5, - 0.9 :: real]) [] = [[], [], [], [Wither], [], [], []]"
    "replicate (length [0, 0.7, - 0.3 :: real]) [] @ [[Wither]]
             @ replicate (length [- 0.7, - 0.5, - 0.9 :: real]) [] @ [[]] =
       [[], [], [], [Wither], [], [], [], []]"
    by (simp_all add: numeral_eq_Suc)
  have b: "snd (feed True False ([0, 0.7, - 0.3] @ [- 0.65] @ [- 0.7, - 0.5, - 0.9] @ [- 0.1])) =
             [[], [Bloom], [], [], [], [], [], []]"
    by (simp add: eventLogic_def emit_def)
  have e: "eventLogic True False (- 0.1) = (False, [])"
    by (simp add: eventLogic_def)
  have z: "map2 (@) [[], [Bloom], [], [], [], [], [], []] [[], [], [], [Wither], [], [], [], []] =
             [[], [Bloom], [], [Wither], [], [], [], []]"
    by simp
  have c1: "snd (fst (feed_mo True (False, False)
                 ([0, 0.7, - 0.3] @ [- 0.65] @ [- 0.7, - 0.5, - 0.9]))) = True"
    using t by blast
  have c2: "wither_only (snd (feed_mo True (False, False)
                 ([0, 0.7, - 0.3] @ [- 0.65] @ [- 0.7, - 0.5, - 0.9]))) =
              [[], [], [], [Wither], [], [], []]"
    using t unfolding r by blast
  have c3: "snd (fst (feed_mo True (False, False)
                 ([0, 0.7, - 0.3] @ [- 0.65] @ [- 0.7, - 0.5, - 0.9] @ [- 0.1]))) = False"
    using t by blast
  have c4: "wither_only (snd (feed_mo True (False, False)
                 ([0, 0.7, - 0.3] @ [- 0.65] @ [- 0.7, - 0.5, - 0.9] @ [- 0.1]))) =
              [[], [], [], [Wither], [], [], [], []]"
    using t unfolding r by blast
  have c5: "snd (feed_mo True (False, False)
                 ([0, 0.7, - 0.3] @ [- 0.65] @ [- 0.7, - 0.5, - 0.9] @ [- 0.1])) =
              [[], [Bloom], [], [Wither], [], [], [], []]"
    using t unfolding r b z by blast
  have c6: "eventLogic_mo True (False, True) (- 0.1) = ((False, False), [])"
    using t unfolding e fst_conv snd_conv by blast
  have h': "\<forall>m \<in> set [0.3, - 0.3 :: real]. - 0.6 \<le> m" "- 0.65 < (- 0.6 :: real)"
    "\<forall>m \<in> set [- 0.7 :: real]. m \<le> - 0.2" "- 0.2 < (0.1 :: real)"
    by simp_all
  note t' = wither_hysteresis [OF h', of True True False 0 False]
  have r': "replicate (length [0.3, - 0.3 :: real]) [] @ [[Wither]]
             @ replicate (length [- 0.7 :: real]) [] @ [[]] = [[], [], [Wither], [], []]"
    by (simp add: numeral_eq_Suc)
  have lo: "(\<forall>m \<in> set [0.3, - 0.3 :: real]. m \<le> 0.6) \<and> (0.1 :: real) \<le> 0.6" by simp
  have c7: "snd (feed_mo True (True, False) ([0.3, - 0.3] @ [- 0.65] @ [- 0.7] @ [0.1])) =
              [[], [], [Wither], [], []]"
    using t' lo unfolding r' by blast
  show ?thesis using c1 c2 c3 c4 c5 c6 c7 by blast
qed

lemma eventLogic_mo_exclusive:
  "\<not> (fst (fst (eventLogic_mo sink l cm)) \<and> snd (fst (eventLogic_mo sink l cm)))"
  by (cases l) (simp add: eventLogic_mo_def)

text \<open>
  C9. Latch mutual exclusion in the mood-only variant. For every sequence of smoothed
  moods, and from any latches, the bloom latch and the wither latch are not both set at
  the end of any frame.
\<close>

theorem latches_exclusive:
  "list_all (\<lambda>l. \<not> (fst l \<and> snd l)) (latches_mo sink l0 cms)"
proof (induction cms arbitrary: l0)
  case Nil
  show ?case by simp
next
  case (Cons cm cms)
  show ?case
    using eventLogic_mo_exclusive [of sink l0 cm] Cons.IH [of "fst (eventLogic_mo sink l0 cm)"]
    by (simp add: Let_def)
qed

section \<open>Properties of the smoother\<close>

subsection \<open>Doubles and rounding\<close>

lemma double_frac: "\<bar>k\<bar> < 2 ^ 53 \<Longrightarrow> n \<le> 1074 \<Longrightarrow> of_int k / 2 ^ n \<in> double"
  unfolding double_def by blast




lemma lit_double: "lit_0_1 \<in> double"
  unfolding lit_0_1_def using double_frac [of 3602879701896397 55] by simp










text \<open>Doubles between 1/16 and 1/8 are multiples of \<open>2^-56\<close>.\<close>

lemma double_grid:
  assumes z: "z \<in> double" and lo: "1 / 16 < z" and hi: "z < 1 / 8"
  shows "\<exists>j :: int. z = of_int j / 2 ^ 56"
proof -
  from z consider
    (whole) k :: int and n :: nat where "z = of_int k * 2 ^ n"
  | (frac) k :: int and n :: nat where "z = of_int k / 2 ^ n" "\<bar>k\<bar> < 2 ^ 53" "n \<le> 1074"
    unfolding double_def by blast
  then show ?thesis
  proof cases
    case whole
    then have "z = of_int (k * 2 ^ n)" by simp
    then obtain i :: int where i: "z = of_int i" by blast
    from lo hi have "0 < i" "i < 1" unfolding i by linarith+
    then show ?thesis by simp
  next
    case frac
    have pos: "(0 :: real) < 2 ^ n" by simp
    from lo frac(1) have "2 ^ n < 16 * real_of_int k"
      using pos by (simp add: field_simps)
    moreover have "real_of_int k < 2 ^ 53"
    proof -
      have "k < 2 ^ 53" using frac(2) by simp
      then have "real_of_int k < real_of_int (2 ^ 53)" by (simp only: of_int_less_iff)
      then show ?thesis by simp
    qed
    ultimately have "(2 :: real) ^ n < 2 ^ 57" by simp
    then have "n < 57" by (rule power_less_imp_less_exp [rotated]) simp
    then have "n \<le> 56" by simp
    then obtain q where q: "56 = n + q" using le_Suc_ex by blast
    have "z = of_int (k * 2 ^ q) / 2 ^ 56"
      unfolding q frac(1) by (simp add: power_add)
    then show ?thesis by blast
  qed
qed


lemma grid_unique:
  assumes z: "z \<in> double" and c: "c = of_int J / 2 ^ 56"
    and b: "1 / 16 + 1 / 2 ^ 56 < c" "c + 1 / 2 ^ 56 < 1 / 8"
    and near: "\<bar>z - c\<bar> < 1 / 2 ^ 56"
  shows "z = c"
proof -
  from near have "c - 1 / 2 ^ 56 < z" "z < c + 1 / 2 ^ 56" by linarith+
  with b have "1 / 16 < z" "z < 1 / 8" by linarith+
  from double_grid [OF z this] obtain j :: int where j: "z = of_int j / 2 ^ 56" by blast
  have "\<bar>of_int j / 2 ^ 56 - of_int J / (2 ^ 56 :: real)\<bar> < 1 / 2 ^ 56"
    using near unfolding j c .
  then have "\<bar>(of_int j - of_int J) / (2 ^ 56 :: real)\<bar> < 1 / 2 ^ 56"
    by (simp only: diff_divide_distrib)
  then have "\<bar>real_of_int (j - J)\<bar> < 1"
    by (simp add: abs_divide field_simps)
  then have "\<bar>j - J\<bar> < 1" by linarith
  then have "j = J" by simp
  then show ?thesis unfolding j c by simp
qed

text \<open>
  Around such a multiple \<open>c\<close>, every real closer than \<open>2^-57\<close> rounds to \<open>c\<close> and to
  nothing else.
\<close>

lemma nearest_grid:
  assumes cd: "c \<in> double" and c: "c = of_int J / 2 ^ 56"
    and b: "1 / 16 + 1 / 2 ^ 56 < c" "c + 1 / 2 ^ 56 < 1 / 8"
    and e: "\<bar>e\<bar> < 1 / 2 ^ 57"
  shows "nearest (c + e) y \<longleftrightarrow> y = c"
proof
  assume n: "nearest (c + e) y"
  then have y: "y \<in> double" and "\<bar>c + e - y\<bar> \<le> \<bar>c + e - c\<bar>"
    using cd unfolding nearest_def by blast+
  then have "\<bar>y - c\<bar> \<le> 2 * \<bar>e\<bar>" by linarith
  also have "2 * \<bar>e\<bar> < 1 / 2 ^ 56" using e by simp
  finally show "y = c" using grid_unique [OF y c b] by blast
next
  assume "y = c"
  moreover have "\<bar>c + e - c\<bar> \<le> \<bar>c + e - z\<bar>" if z: "z \<in> double" for z
  proof (rule ccontr)
    assume "\<not> \<bar>c + e - c\<bar> \<le> \<bar>c + e - z\<bar>"
    then have lt: "\<bar>c + e - z\<bar> < \<bar>e\<bar>" by simp
    then have "\<bar>z - c\<bar> < 2 * \<bar>e\<bar>" by linarith
    also have "2 * \<bar>e\<bar> < 1 / 2 ^ 56" using e by simp
    finally have "z = c" using grid_unique [OF z c b] by blast
    with lt show False by simp
  qed
  ultimately show "nearest (c + e) y"
    unfolding nearest_def using cd by blast
qed

lemma lit_0_12_double: "lit_0_12 \<in> double"
  unfolding lit_0_12_def using double_frac [of 1080863910568919 53] by simp

lemma nearest_lit:
  assumes e: "\<bar>e\<bar> < 1 / 2 ^ 57"
  shows "nearest (lit_0_1 + e) y \<longleftrightarrow> y = lit_0_1"
proof -
  have c: "lit_0_1 = of_int 7205759403792794 / 2 ^ 56" by (simp add: lit_0_1_def)
  have b: "1 / 16 + 1 / 2 ^ 56 < lit_0_1" "lit_0_1 + 1 / 2 ^ 56 < 1 / 8"
    by (simp_all add: lit_0_1_def)
  show ?thesis by (rule nearest_grid [OF lit_double c b e])
qed

text \<open>The two constants are the doubles nearest to the decimal literals.\<close>

lemma literal_0_1: "nearest (1 / 10) y \<longleftrightarrow> y = lit_0_1"
proof -
  have "\<bar>1 / 10 - lit_0_1\<bar> < 1 / 2 ^ 57" by (simp add: lit_0_1_def)
  from nearest_lit [OF this, of y] show ?thesis by simp
qed

lemma literal_0_12: "nearest (12 / 100) y \<longleftrightarrow> y = lit_0_12"
proof -
  have c: "lit_0_12 = of_int 8646911284551352 / 2 ^ 56" by (simp add: lit_0_12_def)
  have b: "1 / 16 + 1 / 2 ^ 56 < lit_0_12" "lit_0_12 + 1 / 2 ^ 56 < 1 / 8"
    by (simp_all add: lit_0_12_def)
  have e: "\<bar>12 / 100 - lit_0_12\<bar> < 1 / 2 ^ 57" by (simp add: lit_0_12_def)
  from nearest_grid [OF lit_0_12_double c b e, of y] show ?thesis by simp
qed

subsection \<open>The smoothing step\<close>












text \<open>A frame of \<open>p.draw\<close> smooths the mood by this step and runs the detector on the result.\<close>

lemma draw_signal_mood:
  assumes "draw_signal sink state s (s', evs)"
  shows "smoothMood (currentMood s) state (currentMood s') \<and>
         eventLogic sink (wasBlooming s) (currentMood s') = (wasBlooming s', evs)"
  using assms by (auto elim: draw_signal.cases)




section \<open>Properties of the skeleton builder\<close>

declare createBranch.simps [simp del]

lemma random2_bounds:
  assumes u: "unit_source rnd" and le: "lo \<le> hi"
  shows "lo \<le> random2 rnd k lo hi \<and> random2 rnd k lo hi \<le> hi"
proof -
  have r: "0 \<le> rnd k" "rnd k \<le> 1" using u by (auto simp: unit_source_def less_imp_le)
  have "0 \<le> rnd k * (hi - lo)" using r le by simp
  moreover have "rnd k * (hi - lo) \<le> 1 * (hi - lo)" using r le by (intro mult_right_mono) auto
  ultimately show ?thesis by (simp add: random2_def)
qed

lemma lenMult_drawn:
  assumes u: "unit_source rnd"
  shows "0.64 \<le> 0.72 + random2 rnd k (- 0.08) 0.08 \<and> 0.72 + random2 rnd k (- 0.08) 0.08 \<le> 0.80"
  using random2_bounds [OF u, of "- 0.08" "0.08" k] by simp

lemma shaped_attach: "shaped d (attach a c) = shaped d c"
  by (cases c) (simp add: attach_def)

lemma createBranch_shaped: "shaped d (fst (createBranch rnd d k))"
proof (induction "MAX_DEPTH - d" arbitrary: d k)
  case 0
  then have "\<not> d < MAX_DEPTH" by simp
  then show ?case by (simp add: createBranch.simps [of rnd d k] Let_def)
next
  case (Suc n)
  then have lt: "d < MAX_DEPTH" and n: "n = MAX_DEPTH - (d + 1)" by simp_all
  have ih: "\<And>k'. shaped (d + 1) (fst (createBranch rnd (d + 1) k'))"
    using Suc.hyps(1) [OF n] .
  show ?case
    using lt ih
    by (simp add: createBranch.simps [of rnd d k] Let_def split_beta shaped_attach)
qed

lemma nodes_attach:
  "nodes (attach a c) = attach a c # concat (map nodes (children c))"
  by (cases c) (simp add: attach_def)

lemma nodes_unfold: "nodes b = b # concat (map nodes (children b))"
  by (cases b) simp

lemma shaped_nodes:
  "shaped d b \<Longrightarrow> d \<le> MAX_DEPTH \<Longrightarrow>
   length (nodes b) = 2 ^ (MAX_DEPTH + 1 - d) - 1 \<and>
   list_all (\<lambda>n. depth n \<le> MAX_DEPTH \<and>
                  (depth n < MAX_DEPTH \<longrightarrow> length (children n) = 2) \<and>
                  (depth n = MAX_DEPTH \<longrightarrow> children n = [])) (nodes b)"
proof (induction "MAX_DEPTH - d" arbitrary: d b)
  case 0
  then have d: "d = MAX_DEPTH" by simp
  obtain l t d' a cs nt hf lm where b: "b = Branch l t d' a cs nt hf lm" by (cases b)
  from "0.prems"(1) show ?case unfolding b d by simp
next
  case (Suc n)
  then have lt: "d < MAX_DEPTH" and n: "n = MAX_DEPTH - (d + 1)" and le: "d + 1 \<le> MAX_DEPTH" by simp_all
  obtain l t d' a cs nt hf lm where b: "b = Branch l t d' a cs nt hf lm" by (cases b)
  from Suc.prems(1) lt have d': "d' = d" and len: "length cs = 2"
    and sh: "list_all (shaped (d + 1)) cs" unfolding b by simp_all
  from len obtain c0 c1 where cs: "cs = [c0, c1]"
    by (cases cs; cases "tl cs") auto
  have ih0: "length (nodes c0) = 2 ^ (MAX_DEPTH + 1 - (d + 1)) - 1 \<and>
   list_all (\<lambda>n. depth n \<le> MAX_DEPTH \<and>
                  (depth n < MAX_DEPTH \<longrightarrow> length (children n) = 2) \<and>
                  (depth n = MAX_DEPTH \<longrightarrow> children n = [])) (nodes c0)"
    using Suc.hyps(1) [OF n _ le, of c0] sh cs by simp
  have ih1: "length (nodes c1) = 2 ^ (MAX_DEPTH + 1 - (d + 1)) - 1 \<and>
   list_all (\<lambda>n. depth n \<le> MAX_DEPTH \<and>
                  (depth n < MAX_DEPTH \<longrightarrow> length (children n) = 2) \<and>
                  (depth n = MAX_DEPTH \<longrightarrow> children n = [])) (nodes c1)"
    using Suc.hyps(1) [OF n _ le, of c1] sh cs by simp
  define m where "m = MAX_DEPTH + 1 - (d + 1)"
  have sm: "MAX_DEPTH + 1 - d = Suc m" using lt unfolding m_def by arith
  define P where "P = (2::nat) ^ m"
  have one: "1 \<le> P" unfolding P_def by simp
  have l0: "length (nodes c0) = P - 1" and l1: "length (nodes c1) = P - 1"
    using ih0 ih1 unfolding m_def P_def by simp_all
  have "length (nodes b) = Suc (length (nodes c0) + length (nodes c1))"
    unfolding b cs by simp
  then have "length (nodes b) = 2 * P - 1" using l0 l1 one by arith
  then have cnt: "length (nodes b) = 2 ^ (MAX_DEPTH + 1 - d) - 1"
    unfolding sm P_def by simp
  have here: "depth b \<le> MAX_DEPTH \<and>
                  (depth b < MAX_DEPTH \<longrightarrow> length (children b) = 2) \<and>
                  (depth b = MAX_DEPTH \<longrightarrow> children b = [])"
    unfolding b cs using lt d' by simp
  have al: "list_all (\<lambda>n. depth n \<le> MAX_DEPTH \<and>
                  (depth n < MAX_DEPTH \<longrightarrow> length (children n) = 2) \<and>
                  (depth n = MAX_DEPTH \<longrightarrow> children n = [])) (nodes b)"
    using here ih0 ih1 by (subst nodes_unfold) (simp add: b cs)
  show ?case using cnt al by blast
qed


lemma lenMult_range_drawn:
  assumes u: "unit_source rnd"
  shows "lenMult_range (0.72 + random2 rnd k (- 0.08) 0.08)"
  using lenMult_drawn [OF u, of k] by (simp add: lenMult_range_def)

lemma lenMult_attach:
  "list_all (\<lambda>n. lenMult_range (lenMult n)) (nodes (attach a c)) =
   list_all (\<lambda>n. lenMult_range (lenMult n)) (nodes c)"
  by (cases c) (simp add: attach_def)

lemma createBranch_lenMult:
  assumes u: "unit_source rnd"
  shows "list_all (\<lambda>n. lenMult_range (lenMult n)) (nodes (fst (createBranch rnd d k)))"
proof (induction "MAX_DEPTH - d" arbitrary: d k)
  case 0
  then have "\<not> d < MAX_DEPTH" by simp
  then show ?case
    using lenMult_range_drawn [OF u]
    by (simp add: createBranch.simps [of rnd d k] Let_def)
next
  case (Suc n)
  then have lt: "d < MAX_DEPTH" and n: "n = MAX_DEPTH - (d + 1)" by simp_all
  have ih: "\<And>k'. list_all (\<lambda>n. lenMult_range (lenMult n)) (nodes (fst (createBranch rnd (d + 1) k')))"
    using Suc.hyps(1) [OF n] .
  show ?case
    using lt ih lenMult_range_drawn [OF u]
    by (simp add: createBranch.simps [of rnd d k] Let_def split_beta lenMult_attach)
qed

lemma buildTreeSkeleton_root:
  "fst (buildTreeSkeleton p rnd k) =
     (case fst (createBranch rnd 0 k) of
        Branch l t d a cs nt hf lm \<Rightarrow>
          Branch (height p * (if width p < 600 then 0.22 else 0.26))
                 (if width p < 600 then 18 else 28) d a cs nt hf lm)"
  by (cases "fst (createBranch rnd 0 k)") (simp add: buildTreeSkeleton_def Let_def split_beta)

lemma buildTreeSkeleton_shaped: "shaped 0 (fst (buildTreeSkeleton p rnd k))"
  using createBranch_shaped [of 0 rnd k]
  by (cases "fst (createBranch rnd 0 k)") (simp add: buildTreeSkeleton_root)

lemma buildTreeSkeleton_lenMult:
  assumes u: "unit_source rnd"
  shows "list_all (\<lambda>n. lenMult_range (lenMult n)) (nodes (fst (buildTreeSkeleton p rnd k)))"
  using createBranch_lenMult [OF u, of 0 k]
  by (cases "fst (createBranch rnd 0 k)")
    (simp add: buildTreeSkeleton_root)

text \<open>
  C3. Skeleton structure. For every canvas (and every cursor of the random source), in
  the tree \<open>buildTreeSkeleton\<close> returns every node has depth at most 9, every node
  of depth below 9 has exactly two children and every node of depth 9 has none, and
  there are \<open>2^10 - 1 = 1023\<close> nodes. When the random source yields numbers in \<open>[0, 1)\<close>,
  as the library's does, every node's length multiplier lies in \<open>[0.64, 0.80]\<close>.
\<close>

theorem skeleton_structure:
  "list_all (\<lambda>n. depth n \<le> 9) (nodes (fst (buildTreeSkeleton p rnd k))) \<and>
   list_all (\<lambda>n. (depth n < 9 \<longrightarrow> length (children n) = 2) \<and> (depth n = 9 \<longrightarrow> children n = []))
     (nodes (fst (buildTreeSkeleton p rnd k))) \<and>
   length (nodes (fst (buildTreeSkeleton p rnd k))) = 2 ^ 10 - 1 \<and>
   length (nodes (fst (buildTreeSkeleton p rnd k))) = 1023 \<and>
   (unit_source rnd \<longrightarrow>
      list_all (\<lambda>n. 0.64 \<le> lenMult n \<and> lenMult n \<le> 0.80) (nodes (fst (buildTreeSkeleton p rnd k))))"
proof -
  let ?t = "fst (buildTreeSkeleton p rnd k)"
  have s: "length (nodes ?t) = 2 ^ (MAX_DEPTH + 1 - 0) - 1"
    "list_all (\<lambda>n. depth n \<le> MAX_DEPTH \<and>
                  (depth n < MAX_DEPTH \<longrightarrow> length (children n) = 2) \<and>
                  (depth n = MAX_DEPTH \<longrightarrow> children n = [])) (nodes ?t)"
    using shaped_nodes [OF buildTreeSkeleton_shaped, of p rnd k] by simp_all
  have c: "length (nodes ?t) = 1023" using s(1) by (simp add: MAX_DEPTH_def)
  have a: "list_all (\<lambda>n. depth n \<le> 9) (nodes ?t)"
    "list_all (\<lambda>n. (depth n < 9 \<longrightarrow> length (children n) = 2) \<and> (depth n = 9 \<longrightarrow> children n = []))
     (nodes ?t)"
    using s(2) by (simp_all add: MAX_DEPTH_def list_all_iff)
  have l: "unit_source rnd \<longrightarrow>
      list_all (\<lambda>n. 0.64 \<le> lenMult n \<and> lenMult n \<le> 0.80) (nodes ?t)"
    using buildTreeSkeleton_lenMult [of rnd p k] by (simp add: lenMult_range_def)
  show ?thesis using a c l by simp
qed

theorem skeleton_structure_witness:
  "unit_source coin \<and>
   length (nodes (fst (buildTreeSkeleton desktop coin 0))) = 1023 \<and>
   list_all (\<lambda>n. 0.64 \<le> lenMult n \<and> lenMult n \<le> 0.80) (nodes (fst (buildTreeSkeleton desktop coin 0)))"
proof -
  have u: "unit_source coin" by (simp add: unit_source_def coin_def)
  show ?thesis using skeleton_structure [of desktop coin 0] u by blast
qed

section \<open>Properties of the flower style catalog\<close>

lemma upt5: "[0..<5] = [0, 1, 2, 3, 4]"
  by (simp add: upt_rec)

lemma flower_counts:
  "length (filter is_petal (drawFlowerShape style sz)) = 5 \<and>
   length (filter is_center (drawFlowerShape style sz)) = 1"
  by (cases style) (simp_all add: upt5 sakuraPetal_def delonixPetal_def peachPetal_def Let_def)

lemma flower_angles:
  "\<exists>a0. petal_angles 0 [] (drawFlowerShape style sz) =
          map (\<lambda>k. a0 + real k * (2 * pi / 5)) [0..<5]"
proof (cases style)
  case Peach
  then show ?thesis
    by (intro exI [of _ "2 * pi / 5"]) (simp add: upt5 peachPetal_def TWO_PI_def)
next
  case Sakura
  then show ?thesis
    by (intro exI [of _ "0"]) (simp add: upt5 sakuraPetal_def TWO_PI_def Let_def)
next
  case Delonix
  then show ?thesis
    by (intro exI [of _ "0"]) (simp add: upt5 delonixPetal_def TWO_PI_def Let_def)
qed

text \<open>
  C6. Flower geometry. For each of the three style tags and every size (positive or
  not), \<open>drawFlowerShape\<close> draws exactly five petals and exactly one centre accent,
  and the canvas rotations at the five petal draws are five consecutive multiples of
  \<open>2 pi / 5\<close> apart: \<open>a0, a0 + 2 pi / 5, ..., a0 + 4 (2 pi / 5)\<close>.
\<close>

theorem flower_geometry:
  "length (filter is_petal (drawFlowerShape style sz)) = 5 \<and>
   length (filter is_center (drawFlowerShape style sz)) = 1 \<and>
   (\<exists>a0. petal_angles 0 [] (drawFlowerShape style sz) =
            map (\<lambda>k. a0 + real k * (2 * pi / 5)) [0..<5])"
  using flower_counts [of style sz] flower_angles [of style sz] by blast

section \<open>Properties of the particle store\<close>

subsection \<open>Spawning\<close>

text \<open>
  C10. Off-screen spawn rejection, in both variants of the sketch. A call of
  \<open>spawnFallingParticle\<close> with \<open>x\<close> below -50, or \<open>x\<close> above the canvas width plus 50,
  or \<open>y\<close> above the canvas height returns with the particle list (and the random
  source) as they were; a call with any other position appends exactly one particle,
  placed at that position.
\<close>

theorem spawn_rejection:
  "(x < - 50 \<or> x > width p + 50 \<or> y > height p \<longrightarrow>
      spawnFallingParticle p cw rnd x y (particles, k) = (particles, k) \<and>
      spawnFallingParticle_mo p cw rnd x y dead (particles_mo, k) = (particles_mo, k)) \<and>
   (\<not> (x < - 50 \<or> x > width p + 50 \<or> y > height p) \<longrightarrow>
      (\<exists>part. fst (spawnFallingParticle p cw rnd x y (particles, k)) = particles @ [part] \<and>
              pos part = createVector x y) \<and>
      (\<exists>part. fst (spawnFallingParticle_mo p cw rnd x y dead (particles_mo, k)) =
                particles_mo @ [part] \<and>
              pos_mo part = createVector x y))"
  by (simp add: spawnFallingParticle_def spawnFallingParticle_mo_def Let_def)

theorem spawn_rejection_witness:
  "spawnFallingParticle desktop 0 coin (- 51) 300 ([], 0) = ([], 0) \<and>
   spawnFallingParticle desktop 0 coin 851 300 ([settled], 0) = ([settled], 0) \<and>
   spawnFallingParticle_mo desktop 0 coin 400 601 True ([], 0) = ([], 0) \<and>
   (\<exists>part. fst (spawnFallingParticle desktop 0 coin 850 600 ([settled], 0)) = [settled] @ [part] \<and>
           pos part = createVector 850 600) \<and>
   (\<exists>part. fst (spawnFallingParticle_mo desktop 0 coin (- 50) 0 False ([], 0)) = [] @ [part] \<and>
           pos_mo part = createVector (- 50) 0)"
proof -
  have w: "width desktop = 800" "height desktop = 600" by (simp_all add: desktop_def)
  show ?thesis
    using spawn_rejection [of "- 51" desktop 300 0 coin "[]" 0 True "[]"]
      spawn_rejection [of 851 desktop 300 0 coin "[settled]" 0 True "[]"]
      spawn_rejection [of 400 desktop 601 0 coin "[]" 0 True "[]"]
      spawn_rejection [of 850 desktop 600 0 coin "[settled]" 0 True "[]"]
      spawn_rejection [of "- 50" desktop 0 0 coin "[]" 0 False "[]"]
    unfolding w by simp
qed

subsection \<open>Grounding\<close>

lemma stepParticle_grounded: "isGrounded part \<Longrightarrow> stepParticle p wforce part = part"
  by (simp add: stepParticle_def)

lemma later_grounded: "isGrounded part \<Longrightarrow> later part fs = part"
  by (induction fs arbitrary: part) (auto simp: stepParticle_grounded)

lemma groundings_grounded: "isGrounded part \<Longrightarrow> groundings part fs = 0"
  by (induction fs arbitrary: part) (auto simp: stepParticle_grounded)

lemma advance_keeps: "isGrounded (advance p wforce part) = isGrounded part"
  "groundY (advance p wforce part) = groundY part"
  by (simp_all add: advance_def Let_def)

lemma stepParticle_falling:
  assumes "\<not> isGrounded part"
  shows "stepParticle p wforce part =
     (if vy (pos (advance p wforce part)) \<ge> groundY part
      then (advance p wforce part)\<lparr>isGrounded := True,
             pos := createVector (vx (pos (advance p wforce part))) (groundY part),
             vel := createVector 0 0\<rparr>
      else advance p wforce part)"
  using assms by (simp add: stepParticle_def ground_def advance_keeps)

lemma groundings_once: "groundings part fs \<le> 1"
proof (induction fs arbitrary: part)
  case Nil
  show ?case by simp
next
  case (Cons f fs)
  obtain p wforce where f: "f = (p, wforce)" by (cases f)
  show ?case
  proof (cases "isGrounded (stepParticle p wforce part)")
    case True
    then show ?thesis unfolding f by (simp add: groundings_grounded)
  next
    case False
    then show ?thesis unfolding f using Cons.IH [of "stepParticle p wforce part"] by simp
  qed
qed

text \<open>
  C5. Grounding. Take a falling particle and an update. If the physics step leaves
  \<open>pos.y\<close> below \<open>groundY\<close>, the particle is still falling after the update. If the
  step brings \<open>pos.y\<close> to \<open>groundY\<close> or beyond, the update grounds the particle:
  \<open>pos.y\<close> is set to \<open>groundY\<close> and the velocity to zero. Through every update after
  that, whatever the canvas state and the wind, the particle does not change: it stays
  grounded, \<open>pos.y\<close> stays \<open>groundY\<close> and the velocity stays zero; and over this update
  and all later ones the switch from falling to grounded has happened exactly once. (No
  particle is grounded twice: \<open>groundings_once\<close>.)
\<close>

theorem grounding:
  assumes "\<not> isGrounded part"
  shows "(vy (pos (advance p wforce part)) < groundY part \<longrightarrow>
            \<not> isGrounded (stepParticle p wforce part)) \<and>
         (vy (pos (advance p wforce part)) \<ge> groundY part \<longrightarrow>
            isGrounded (stepParticle p wforce part) \<and>
            vy (pos (stepParticle p wforce part)) = groundY part \<and>
            vel (stepParticle p wforce part) = createVector 0 0 \<and>
            groundings part ((p, wforce) # fs) = 1 \<and>
            isGrounded (later part ((p, wforce) # fs)) \<and>
            vy (pos (later part ((p, wforce) # fs))) = groundY part \<and>
            vel (later part ((p, wforce) # fs)) = createVector 0 0 \<and>
            later part ((p, wforce) # fs) = stepParticle p wforce part)"
proof -
  let ?q = "stepParticle p wforce part"
  have up: "\<not> isGrounded ?q" if "vy (pos (advance p wforce part)) < groundY part"
    using that assms by (simp add: stepParticle_falling advance_keeps)
  have dn: "isGrounded ?q \<and> vy (pos ?q) = groundY part \<and> vel ?q = createVector 0 0"
    if "vy (pos (advance p wforce part)) \<ge> groundY part"
    using that assms by (simp add: stepParticle_falling)
  have rest: "groundings part ((p, wforce) # fs) = 1 \<and> later part ((p, wforce) # fs) = ?q"
    if "vy (pos (advance p wforce part)) \<ge> groundY part"
    using dn [OF that] assms by (simp add: later_grounded groundings_grounded)
  show ?thesis using up dn rest by simp
qed

theorem grounding_witness:
  "\<not> isGrounded (petal\<lparr>pos := createVector 400 589\<rparr>) \<and>
   vy (pos (advance desktop 0 (petal\<lparr>pos := createVector 400 589\<rparr>))) \<ge> groundY (petal\<lparr>pos := createVector 400 589\<rparr>) \<and>
   isGrounded (stepParticle desktop 0 (petal\<lparr>pos := createVector 400 589\<rparr>)) \<and>
   vy (pos (stepParticle desktop 0 (petal\<lparr>pos := createVector 400 589\<rparr>))) = 590 \<and>
   groundings (petal\<lparr>pos := createVector 400 589\<rparr>) [(desktop, 0), (desktop, 1), (desktop, - 1)] = 1 \<and>
   vy (pos (later (petal\<lparr>pos := createVector 400 589\<rparr>) [(desktop, 0), (desktop, 1), (desktop, - 1)])) = 590 \<and>
   vel (later (petal\<lparr>pos := createVector 400 589\<rparr>) [(desktop, 0), (desktop, 1), (desktop, - 1)]) = createVector 0 0 \<and>
   \<not> isGrounded petal \<and>
   vy (pos (advance desktop 0 petal)) < groundY petal \<and>
   \<not> isGrounded (stepParticle desktop 0 petal)"
proof -
  let ?low = "petal\<lparr>pos := createVector 400 589\<rparr>"
  have f: "\<not> isGrounded ?low" "\<not> isGrounded petal" "groundY ?low = 590"
    by (simp_all add: petal_def)
  have a: "vy (pos (advance desktop 0 ?low)) \<ge> groundY ?low"
    by (simp add: advance_def petal_def desktop_def Let_def)
  have b: "vy (pos (advance desktop 0 petal)) < groundY petal"
    by (simp add: advance_def petal_def desktop_def Let_def)
  show ?thesis
    using grounding [OF f(1), of desktop 0 "[(desktop, 1), (desktop, - 1)]"]
      grounding [OF f(2), of desktop 0 "[]"] a b f
    by (simp del: later.simps groundings.simps)
qed

subsection \<open>The update loop and the capacity\<close>

declare particleLoop.simps [simp del]

text \<open>
  The loop, started at the last index, never reads past the end: it steps every
  particle, keeps those still on the canvas in their order, and draws them last to
  first.
\<close>

lemma particleLoop_char:
  "n \<le> length ps \<Longrightarrow>
   particleLoop p wforce st (int n - 1) ps out =
     Inr (filter (\<lambda>q. \<not> offCanvas p q) (map (stepParticle p wforce) (take n ps)) @ drop n ps,
          out @ concat (map (\<lambda>q. renderParticle st (stepParticle p wforce q)) (rev (take n ps))))"
proof (induction n arbitrary: ps out)
  case 0
  then show ?case by (simp add: particleLoop.simps [of p wforce st "- 1"])
next
  case (Suc n)
  then have lt: "n < length ps" by simp
  let ?part = "stepParticle p wforce (ps ! n)"
  let ?ps2 = "if offCanvas p ?part then splice n 1 (ps[n := ?part]) else ps[n := ?part]"
  have len: "n \<le> length ?ps2" using lt by (auto simp: splice_def)
  have tk: "take n ?ps2 = take n ps" using lt by (simp add: splice_def)
  have dr: "drop n ?ps2 = (if offCanvas p ?part then [] else [?part]) @ drop (Suc n) ps"
    using lt by (simp add: splice_def Cons_nth_drop_Suc [symmetric] upd_conv_take_nth_drop)
  have unf: "particleLoop p wforce st (int (Suc n) - 1) ps out =
      particleLoop p wforce st (int n - 1) ?ps2 (out @ renderParticle st ?part)"
    using lt by (subst particleLoop.simps) (simp add: Let_def)
  show ?case
    unfolding unf Suc.IH [OF len] tk dr
    using lt by (simp add: take_Suc_conv_app_nth)
qed

lemma trim_newest:
  "(if length particles > MAX_PARTICLES
    then splice 0 (length particles - MAX_PARTICLES) particles else particles) = newest particles"
  by (simp add: splice_def newest_def)

lemma updateParticles_char:
  "updateParticles p wforce st particles =
     Inr (filter (\<lambda>q. \<not> offCanvas p q) (map (stepParticle p wforce) (newest particles)),
          concat (map (\<lambda>q. renderParticle st (stepParticle p wforce q)) (rev (newest particles))))"
  unfolding updateParticles_def trim_newest Let_def
  using particleLoop_char [of "length (newest particles)" "newest particles" p wforce st "[]"]
  by simp

lemma length_newest: "length (newest particles) = min (length particles) MAX_PARTICLES"
  by (auto simp: newest_def)

lemma newest_append:
  "MAX_PARTICLES \<le> length new \<Longrightarrow> newest (old @ new) = drop (length new - MAX_PARTICLES) new"
  by (simp add: newest_def)

lemma spawnAll_appends:
  "list_all (accepted p) xys \<Longrightarrow>
   \<exists>new. fst (spawnAll p cw rnd xys (old, k)) = old @ new \<and> length new = length xys"
proof (induction xys arbitrary: old k)
  case Nil
  then show ?case by simp
next
  case (Cons xy xys)
  obtain x y where xy: "xy = (x, y)" by (cases xy)
  from Cons.prems have acc: "accepted p (x, y)" and rest: "list_all (accepted p) xys"
    unfolding xy by simp_all
  obtain part k' where sp: "spawnFallingParticle p cw rnd x y (old, k) = (old @ [part], k')"
    using acc by (simp add: spawnFallingParticle_def accepted_def Let_def)
  from Cons.IH [OF rest, of "old @ [part]" k']
  obtain new where "fst (spawnAll p cw rnd xys (old @ [part], k')) = (old @ [part]) @ new"
    "length new = length xys" by blast
  then show ?case unfolding xy by (intro exI [of _ "part # new"]) (simp add: sp)
qed


lemma updateParticles_store:
  "storeAfter (updateParticles p wforce st particles) =
     Some (filter (\<lambda>q. \<not> offCanvas p q) (map (stepParticle p wforce) (newest particles)))"
  by (simp add: updateParticles_char storeAfter_def)

lemma filter_all: "list_all P xs \<Longrightarrow> filter P xs = xs"
  by (induction xs) simp_all

lemma vec_add_sel: "vx (vec_add a b) = vx a + vx b" "vy (vec_add a b) = vy a + vy b"
  by (cases a; cases b; simp)+

lemma vec_mult_sel: "vx (vec_mult a n) = vx a * n" "vy (vec_mult a n) = vy a * n"
  by (cases a; simp)+

lemma stepParticle_x:
  "\<not> isGrounded part \<Longrightarrow>
   vx (pos (stepParticle p wforce part)) =
     vx (pos part) +
     (vx (vel part)
      + (wforce * 0.25
         + (noise p (vx (pos part) * 0.01) (vy (pos part) * 0.01) (frameCount p * 0.02) - 0.5) * 0.15)
      + sin (frameCount p * swayFreq part + swayPhase part) * swayAmp part) * 0.94"
  by (simp add: stepParticle_def ground_def advance_def Let_def vec_add_sel vec_mult_sel)

lemma spawn_coin:
  "accepted desktop (x, y) \<Longrightarrow>
   spawnFallingParticle desktop cw coin x y (ps, k) = (ps @ [fresh cw x y], k + 12)"
  by (simp add: spawnFallingParticle_def accepted_def desktop_def coin_def fresh_def
      random1_def random2_def TWO_PI_def Let_def)

lemma spawnAll_coin:
  "accepted desktop (x, y) \<Longrightarrow>
   spawnAll desktop cw coin (replicate n (x, y)) (ps, k) = (ps @ replicate n (fresh cw x y), k + 12 * n)"
proof (induction n arbitrary: ps k)
  case 0
  show ?case by simp
next
  case (Suc n)
  show ?case
    using Suc.IH [OF Suc.prems, of "ps @ [fresh cw x y]" "k + 12"]
    by (simp add: spawn_coin [OF Suc.prems] replicate_app_Cons_same)
qed

lemma settled_stays: "stepParticle p wforce settled = settled" "\<not> offCanvas desktop settled"
  by (simp_all add: stepParticle_def settled_def offCanvas_def desktop_def)

lemma drifting_leaves: "offCanvas desktop (stepParticle desktop 1 drifting)"
proof -
  define s where "s = sin (1.06 :: real)"
  have b: "- 1 \<le> s" unfolding s_def by (rule sin_ge_minus_one)
  have f: "\<not> isGrounded drifting" by (simp add: drifting_def)
  have eq: "vx (pos (stepParticle desktop 1 drifting)) = 899 + (3.25 + s * 0.03) * 0.94"
    unfolding stepParticle_x [OF f] s_def by (simp add: drifting_def desktop_def)
  have "900 < vx (pos (stepParticle desktop 1 drifting))"
    unfolding eq using b by simp
  then show ?thesis by (simp add: offCanvas_def desktop_def)
qed

lemma fresh_stays: "\<not> offCanvas desktop (stepParticle desktop 1 (fresh 1 400 300))"
proof -
  define s where "s = sin (0.075 + pi)"
  have b: "- 1 \<le> s" "s \<le> 1"
    unfolding s_def by (rule sin_ge_minus_one, rule sin_le_one)
  have f: "\<not> isGrounded (fresh 1 400 300)" by (simp add: fresh_def)
  have eq: "vx (pos (stepParticle desktop 1 (fresh 1 400 300))) =
              400 + (2.75 + s * 0.035) * 0.94"
    unfolding stepParticle_x [OF f] s_def by (simp add: fresh_def desktop_def)
  have "400 < vx (pos (stepParticle desktop 1 (fresh 1 400 300))) \<and>
        vx (pos (stepParticle desktop 1 (fresh 1 400 300))) < 410"
    unfolding eq using b by simp
  then show ?thesis by (simp add: offCanvas_def desktop_def)
qed

lemma fresh_blown: "offCanvas desktop (stepParticle desktop 20 (fresh 20 850 300))"
proof -
  define s where "s = sin (0.075 + pi)"
  have b: "- 1 \<le> s" unfolding s_def by (rule sin_ge_minus_one)
  have f: "\<not> isGrounded (fresh 20 850 300)" by (simp add: fresh_def)
  have eq: "vx (pos (stepParticle desktop 20 (fresh 20 850 300))) =
              850 + (55 + s * 0.035) * 0.94"
    unfolding stepParticle_x [OF f] s_def by (simp add: fresh_def desktop_def)
  have "900 < vx (pos (stepParticle desktop 20 (fresh 20 850 300)))"
    unfolding eq using b by simp
  then show ?thesis by (simp add: offCanvas_def desktop_def)
qed

text \<open>
  C2, amended. Every update leaves at most 300 particles in the store: it first drops
  the oldest particles beyond the newest 300, then steps each of those 300 and removes
  the ones that have left the canvas sideways by more than the margin of 100; what
  remains keeps its order. After \<open>N > 300\<close> particles have been spawned (each call
  appends one), one update leaves exactly the stepped particles of the 300 most recently
  spawned that are still within the margin: exactly 300 of them when none has left,
  fewer otherwise. (Between updates the store can hold more than 300: spawning appends
  without a limit.)
\<close>

theorem particle_capacity:
  "(\<exists>kept. storeAfter (updateParticles p wforce st particles) = Some kept \<and>
      length kept \<le> 300 \<and>
      kept = filter (\<lambda>q. \<not> offCanvas p q)
               (map (stepParticle p wforce) (drop (length particles - 300) particles))) \<and>
   (list_all (accepted p) xys \<and> 300 < length xys \<longrightarrow>
      (\<exists>new kept.
         fst (spawnAll p cw rnd xys (old, k)) = old @ new \<and> length new = length xys \<and>
         storeAfter (updateParticles p wforce st (old @ new)) = Some kept \<and>
         kept = filter (\<lambda>q. \<not> offCanvas p q)
                  (map (stepParticle p wforce) (drop (length new - 300) new)) \<and>
         (list_all (\<lambda>q. \<not> offCanvas p (stepParticle p wforce q)) (drop (length new - 300) new)
            \<longrightarrow> length kept = 300 \<and>
                kept = map (stepParticle p wforce) (drop (length new - 300) new))))"
proof -
  have g: "\<exists>kept. storeAfter (updateParticles p wforce st particles) = Some kept \<and>
      length kept \<le> 300 \<and>
      kept = filter (\<lambda>q. \<not> offCanvas p q)
               (map (stepParticle p wforce) (drop (length particles - 300) particles))"
  proof -
    have "length (filter (\<lambda>q. \<not> offCanvas p q) (map (stepParticle p wforce) (newest particles)))
            \<le> length (newest particles)"
      using length_filter_le [of _ "map (stepParticle p wforce) (newest particles)"] by simp
    then have "length (filter (\<lambda>q. \<not> offCanvas p q) (map (stepParticle p wforce) (newest particles)))
            \<le> 300"
      by (simp add: length_newest MAX_PARTICLES_def)
    then show ?thesis
      by (simp add: updateParticles_store) (simp add: newest_def MAX_PARTICLES_def)
  qed
  have s: "\<exists>new kept.
         fst (spawnAll p cw rnd xys (old, k)) = old @ new \<and> length new = length xys \<and>
         storeAfter (updateParticles p wforce st (old @ new)) = Some kept \<and>
         kept = filter (\<lambda>q. \<not> offCanvas p q)
                  (map (stepParticle p wforce) (drop (length new - 300) new)) \<and>
         (list_all (\<lambda>q. \<not> offCanvas p (stepParticle p wforce q)) (drop (length new - 300) new)
            \<longrightarrow> length kept = 300 \<and>
                kept = map (stepParticle p wforce) (drop (length new - 300) new))"
    if acc: "list_all (accepted p) xys" and n: "300 < length xys"
  proof -
    from spawnAll_appends [OF acc, of cw rnd old k]
    obtain new where new: "fst (spawnAll p cw rnd xys (old, k)) = old @ new"
      "length new = length xys" by blast
    let ?last = "drop (length new - 300) new"
    let ?kept = "filter (\<lambda>q. \<not> offCanvas p q) (map (stepParticle p wforce) ?last)"
    have nw: "newest (old @ new) = ?last"
      using newest_append [of new old] new(2) n by (simp add: MAX_PARTICLES_def)
    have st: "storeAfter (updateParticles p wforce st (old @ new)) = Some ?kept"
      by (simp add: updateParticles_store nw)
    have len: "length ?last = 300" using new(2) n by simp
    have full: "length ?kept = 300 \<and> ?kept = map (stepParticle p wforce) ?last"
      if "list_all (\<lambda>q. \<not> offCanvas p (stepParticle p wforce q)) ?last"
    proof -
      from that have "list_all (\<lambda>q. \<not> offCanvas p q) (map (stepParticle p wforce) ?last)"
        by (simp add: list_all_iff)
      then have "?kept = map (stepParticle p wforce) ?last" by (rule filter_all)
      then show ?thesis using len by simp
    qed
    show ?thesis using new st full by blast
  qed
  show ?thesis using g s by blast
qed

theorem particle_capacity_witness:
  "list_all (accepted desktop) (replicate 301 (400, 300)) \<and>
   300 < length (replicate 301 (400 :: real, 300 :: real)) \<and>
   storeAfter (updateParticles desktop 1 Peach
      (fst (spawnAll desktop 1 coin (replicate 301 (400, 300)) ([], 0)))) =
     Some (replicate 300 (stepParticle desktop 1 (fresh 1 400 300))) \<and>
   map_option length (storeAfter (updateParticles desktop 1 Peach
      (fst (spawnAll desktop 1 coin (replicate 301 (400, 300)) ([], 0))))) = Some 300"
proof -
  have ok: "accepted desktop (400, 300)" by (simp add: accepted_def desktop_def)
  have acc: "list_all (accepted desktop) (replicate 301 (400, 300))"
    using ok by (simp add: list_all_iff)
  have n: "300 < length (replicate 301 (400 :: real, 300 :: real))" by simp
  have sp: "fst (spawnAll desktop 1 coin (replicate 301 (400, 300)) ([], 0)) =
              replicate 301 (fresh 1 400 300)"
    by (simp add: spawnAll_coin [OF ok])
  from particle_capacity [of desktop 1 Peach "[]" "replicate 301 (400, 300)" 1 coin "[]" 0] acc n
  obtain new kept where
    new: "fst (spawnAll desktop 1 coin (replicate 301 (400, 300)) ([], 0)) = [] @ new"
    and st: "storeAfter (updateParticles desktop 1 Peach ([] @ new)) = Some kept"
    and full: "list_all (\<lambda>q. \<not> offCanvas desktop (stepParticle desktop 1 q))
                 (drop (length new - 300) new)
               \<longrightarrow> length kept = 300 \<and>
                   kept = map (stepParticle desktop 1) (drop (length new - 300) new)"
    by blast
  from new sp have nw: "new = replicate 301 (fresh 1 400 300)" by simp
  have dr: "drop (length new - 300) new = replicate 300 (fresh 1 400 300)"
    unfolding nw by simp
  have "list_all (\<lambda>q. \<not> offCanvas desktop (stepParticle desktop 1 q))
          (drop (length new - 300) new)"
    unfolding dr using fresh_stays by (simp add: list_all_iff)
  with full have k: "length kept = 300"
    "kept = replicate 300 (stepParticle desktop 1 (fresh 1 400 300))"
    unfolding dr by simp_all
  have "storeAfter (updateParticles desktop 1 Peach
      (fst (spawnAll desktop 1 coin (replicate 301 (400, 300)) ([], 0)))) = Some kept"
    using st new by simp
  then show ?thesis using acc n k by simp
qed

text \<open>
  The claim as the spec words it promises exactly 300 survivors. Two stores of 301
  particles for which one update leaves fewer. In the first, 299 leaves lie on the
  ground, one leaf is in flight one pixel inside the right margin and drifts out in a
  wind of 1, and one leaf has just been spawned: 299 remain. In the second all 301 have
  just been spawned at the right edge in a wind of 20, and the update blows every one of
  the newest 300 past the margin: none remains.
\<close>

theorem particle_capacity_counterexample:
  "map_option length (storeAfter (updateParticles desktop 1 Peach
      (fst (spawnFallingParticle desktop 1 coin 400 300 (replicate 299 settled @ [drifting], 0)))))
     = Some 299 \<and>
   map_option length (storeAfter (updateParticles desktop 20 Peach
      (fst (spawnAll desktop 20 coin (replicate 301 (850, 300)) ([], 0)))))
     = Some 0"
proof -
  have ok: "accepted desktop (400, 300)" "accepted desktop (850, 300)"
    by (simp_all add: accepted_def desktop_def)
  have s1: "fst (spawnFallingParticle desktop 1 coin 400 300 (replicate 299 settled @ [drifting], 0))
              = replicate 299 settled @ [drifting, fresh 1 400 300]"
    by (simp add: spawn_coin [OF ok(1)])
  have n1: "newest (replicate 299 settled @ [drifting, fresh 1 400 300]) =
              replicate 298 settled @ [drifting, fresh 1 400 300]"
    by (simp add: newest_def MAX_PARTICLES_def)
  have a: "map_option length (storeAfter (updateParticles desktop 1 Peach
             (replicate 299 settled @ [drifting, fresh 1 400 300]))) = Some 299"
    unfolding updateParticles_store n1
    using settled_stays drifting_leaves fresh_stays by simp
  have s2: "fst (spawnAll desktop 20 coin (replicate 301 (850, 300)) ([], 0)) =
              replicate 301 (fresh 20 850 300)"
    by (simp add: spawnAll_coin [OF ok(2)])
  have n2: "newest (replicate 301 (fresh 20 850 300)) = replicate 300 (fresh 20 850 300)"
    by (simp add: newest_def MAX_PARTICLES_def)
  have b: "map_option length (storeAfter (updateParticles desktop 20 Peach
             (replicate 301 (fresh 20 850 300)))) = Some 0"
    unfolding updateParticles_store n2 using fresh_blown by simp
  show ?thesis unfolding s1 s2 using a b by simp
qed

subsection \<open>The style of a frame\<close>

lemma length_drawFlowerShape: "length (drawFlowerShape s sz) = petalOps s"
  by (cases s) (simp_all add: upt5 peachPetal_def sakuraPetal_def delonixPetal_def Let_def petalOps_def)

lemma petalOps_inj: "petalOps s1 = petalOps s2 \<Longrightarrow> s1 = s2"
  by (cases s1; cases s2) (simp_all add: petalOps_def)

lemma renderParticle_flower:
  "type_p part = Flower \<Longrightarrow>
   renderParticle s part =
     [Push, Translate (vx (pos part)) (vy (pos part)), Rotate (angle part),
      Scale 1 (max 0.1 (if isGrounded part then 0.2 else \<bar>cos (flip part)\<bar>))]
     @ drawFlowerShape s (size_p part) @ [Pop]"
  by (simp add: renderParticle_def Let_def)

lemma length_renderParticle:
  "length (renderParticle s part) = (if type_p part = Flower then 5 + petalOps s else 8)"
  by (simp add: renderParticle_def Let_def length_drawFlowerShape)

lemma stepParticle_type: "type_p (stepParticle p wforce part) = type_p part"
  by (simp add: stepParticle_def ground_def advance_def Let_def)

lemma length_frame:
  "length (concat (map (\<lambda>q. renderParticle s (stepParticle p wforce q)) qs)) =
     8 * length (filter (\<lambda>q. type_p q \<noteq> Flower) qs)
     + (5 + petalOps s) * length (filter (\<lambda>q. type_p q = Flower) qs)"
  by (induction qs) (simp_all add: length_renderParticle stepParticle_type)

lemma updateParticles_drawing:
  "drawingAfter (updateParticles p wforce s particles) =
     Some (concat (map (\<lambda>q. renderParticle s (stepParticle p wforce q)) (rev (newest particles))))"
  by (simp add: updateParticles_char drawingAfter_def)

text \<open>
  C7. Style at draw time. A particle records its type (\<open>leaf\<close> or \<open>flower\<close>) and no
  style tag or petal geometry (the record \<open>Particle\<close> has no such field, and
  \<open>spawnFallingParticle\<close> is not given the style). The style passed to an update does
  not reach the store: the particles it leaves are the same under any two styles. What
  the update draws is, for each particle it keeps after the trim, newest first, the
  drawing of the stepped particle under the style of this call; for a flower particle
  that drawing is the transform of the particle followed by \<open>drawFlowerShape\<close> of the
  call's style at the particle's size, and it differs between any two different styles.
  So when the store holds a flower particle among its newest 300, the frame drawn under
  one style differs from the frame drawn under another, whatever style was current when
  the particle was spawned.
\<close>

theorem style_at_draw_time:
  "storeAfter (updateParticles p wforce s1 particles) =
     storeAfter (updateParticles p wforce s2 particles) \<and>
   drawingAfter (updateParticles p wforce s particles) =
     Some (concat (map (\<lambda>q. renderParticle s (stepParticle p wforce q))
                    (rev (drop (length particles - 300) particles)))) \<and>
   (type_p part = Flower \<longrightarrow>
      renderParticle s part =
        [Push, Translate (vx (pos part)) (vy (pos part)), Rotate (angle part),
         Scale 1 (max 0.1 (if isGrounded part then 0.2 else \<bar>cos (flip part)\<bar>))]
        @ drawFlowerShape s (size_p part) @ [Pop] \<and>
      (s1 \<noteq> s2 \<longrightarrow> renderParticle s1 part \<noteq> renderParticle s2 part)) \<and>
   (s1 \<noteq> s2 \<and> list_ex (\<lambda>q. type_p q = Flower) (drop (length particles - 300) particles) \<longrightarrow>
      drawingAfter (updateParticles p wforce s1 particles) \<noteq>
      drawingAfter (updateParticles p wforce s2 particles))"
proof -
  let ?win = "drop (length particles - 300) particles"
  have nw: "newest particles = ?win" by (simp add: newest_def MAX_PARTICLES_def)
  have a: "storeAfter (updateParticles p wforce s1 particles) =
     storeAfter (updateParticles p wforce s2 particles)"
    by (simp add: updateParticles_store)
  have b: "drawingAfter (updateParticles p wforce s particles) =
     Some (concat (map (\<lambda>q. renderParticle s (stepParticle p wforce q)) (rev ?win)))"
    by (simp add: updateParticles_drawing nw)
  have c: "renderParticle s1 part \<noteq> renderParticle s2 part"
    if "type_p part = Flower" "s1 \<noteq> s2"
  proof
    assume "renderParticle s1 part = renderParticle s2 part"
    then have "length (renderParticle s1 part) = length (renderParticle s2 part)" by simp
    then have "petalOps s1 = petalOps s2" using that(1) by (simp add: length_renderParticle)
    then show False using that(2) petalOps_inj by blast
  qed
  have d: "drawingAfter (updateParticles p wforce s1 particles) \<noteq>
      drawingAfter (updateParticles p wforce s2 particles)"
    if ne: "s1 \<noteq> s2" and ex: "list_ex (\<lambda>q. type_p q = Flower) ?win"
  proof
    assume eq: "drawingAfter (updateParticles p wforce s1 particles) =
      drawingAfter (updateParticles p wforce s2 particles)"
    let ?nf = "length (filter (\<lambda>q. type_p q = Flower) (rev ?win))"
    from ex have pos: "0 < ?nf" by (auto simp: list_ex_iff filter_empty_conv)
    from eq have "length (concat (map (\<lambda>q. renderParticle s1 (stepParticle p wforce q)) (rev ?win)))
       = length (concat (map (\<lambda>q. renderParticle s2 (stepParticle p wforce q)) (rev ?win)))"
      unfolding updateParticles_drawing nw by simp
    then have "(5 + petalOps s1) * ?nf = (5 + petalOps s2) * ?nf"
      unfolding length_frame by simp
    with pos have "petalOps s1 = petalOps s2" by simp
    then show False using ne petalOps_inj by blast
  qed
  show ?thesis using a b c d renderParticle_flower [of part s] by blast
qed

theorem style_at_draw_time_witness:
  "type_p petal = Flower \<and> Peach \<noteq> Sakura \<and>
   list_ex (\<lambda>q. type_p q = Flower) (drop (length [settled, petal] - 300) [settled, petal]) \<and>
   storeAfter (updateParticles desktop 0 Peach [settled, petal]) =
     storeAfter (updateParticles desktop 0 Sakura [settled, petal]) \<and>
   renderParticle Peach petal \<noteq> renderParticle Sakura petal \<and>
   drawingAfter (updateParticles desktop 0 Peach [settled, petal]) \<noteq>
     drawingAfter (updateParticles desktop 0 Sakura [settled, petal])"
proof -
  have f: "type_p petal = Flower" by (simp add: petal_def)
  have ne: "Peach \<noteq> Sakura" by simp
  have ex: "list_ex (\<lambda>q. type_p q = Flower) (drop (length [settled, petal] - 300) [settled, petal])"
    using f by simp
  show ?thesis
    using style_at_draw_time [of desktop 0 Peach "[settled, petal]" Sakura Peach petal] f ne ex
    by blast
qed

end
